theory Spec2Isabelle
  imports Complex_Main "HOL-Library.Sublist"
begin

section \<open>JavaScript primitives used by the handlers\<close>

text \<open>
  \<^verbatim>\<open>Math.round\<close> rounds to the nearest integer, a half upwards. JavaScript numbers are
  IEEE doubles; the model computes with exact reals, so quotients such as
  \<^verbatim>\<open>chunksCompleted.length / totalChunks\<close> are the mathematical ones. Where the exact
  value lies on a half and the double just below it, the percentage of the code is one less
  than the one computed here: for 23 chunks of 40 the code stores 57, since
  \<^verbatim>\<open>23 / 40 * 100\<close> is \<^verbatim>\<open>57.49999999999999\<close> in doubles, where the exact value 57.5 rounds
  to 58. The percentages that appear below as values, such as 50 for one chunk of two, are
  the same in both; the order and the bounds of the batch percentages are those of the exact
  values.
\<close>

definition js_round :: "real \<Rightarrow> int" where
  "js_round x = \<lfloor>x + 1 / 2\<rfloor>"

text \<open>\<^verbatim>\<open>String(n)\<close> for a non-negative integer: its decimal digits.\<close>

definition digit_char :: "nat \<Rightarrow> char" where
  "digit_char d = char_of (48 + d)"

function string_of_nat :: "nat \<Rightarrow> string" where
  "string_of_nat n =
     (if n < 10 then [digit_char n]
      else string_of_nat (n div 10) @ [digit_char (n mod 10)])"
  by pat_completeness auto
termination
  by (relation "measure id") auto

declare string_of_nat.simps [simp del]

text \<open>\<^verbatim>\<open>s.padStart(w, c)\<close> with a one-character filler.\<close>

definition padStart :: "nat \<Rightarrow> char \<Rightarrow> string \<Rightarrow> string" where
  "padStart w c s = replicate (w - length s) c @ s"

text \<open>\<^verbatim>\<open>xs.join(', ')\<close> on an array of numbers.\<close>

fun join_nats :: "nat list \<Rightarrow> string" where
  "join_nats [] = []"
| "join_nats [x] = string_of_nat x"
| "join_nats (x # y # ys) = string_of_nat x @ '', '' @ join_nats (y # ys)"

text \<open>\<^verbatim>\<open>s.includes(sub)\<close>: \<open>sub\<close> occurs in \<open>s\<close> as a contiguous run.\<close>

fun str_includes :: "string \<Rightarrow> string \<Rightarrow> bool" where
  "str_includes [] sub = (sub = [])"
| "str_includes (c # cs) sub = (prefix sub (c # cs) \<or> str_includes cs sub)"

text \<open>\<^verbatim>\<open>s.toLowerCase()\<close> on ASCII text.\<close>

definition lower_char :: "char \<Rightarrow> char" where
  "lower_char c =
     (let n = (of_char c :: nat) in if 65 \<le> n \<and> n \<le> 90 then char_of (n + 32) else c)"

definition toLowerCase :: "string \<Rightarrow> string" where
  "toLowerCase s = map lower_char s"

text \<open>\<^verbatim>\<open>s.split('.').pop()\<close>: the text after the last dot, the whole text when there is none.\<close>

definition split_pop :: "string \<Rightarrow> string" where
  "split_pop s = rev (takeWhile (\<lambda>c. c \<noteq> CHR ''.'') (rev s))"

text \<open>
  A thrown error: its name and its message. \<^verbatim>\<open>new Error(message)\<close> has the name
  \<^verbatim>\<open>Error\<close>; what a library call rejects with may have another, as the \<^verbatim>\<open>AbortError\<close>
  of an aborted \<^verbatim>\<open>fetch\<close>. Interpolating an error into a template, \<^verbatim>\<open>`${error}`\<close>,
  renders the name, a colon and the message, or only one of them when the other is empty.
\<close>

datatype js_error = JsError (error_name: string) (error_message: string)

definition newError :: "string \<Rightarrow> js_error" where
  "newError message = JsError ''Error'' message"

definition rendered :: "js_error \<Rightarrow> string" where
  "rendered e =
     (if error_name e = [] then error_message e
      else if error_message e = [] then error_name e
      else error_name e @ '': '' @ error_message e)"

section \<open>Upload sessions\<close>

text \<open>
  The caller's identity as the handlers see it: no bearer header, a token that
  \<^verbatim>\<open>verifyIdToken\<close> rejects, or the verified user id.
\<close>

datatype auth = NoHeader | InvalidToken | Verified string

text \<open>
  A handler answers with an HTTP status and an error message, or with its success payload.
\<close>

datatype 'a response = Failure nat string | Success 'a

text \<open>
  The \<^verbatim>\<open>upload_sessions\<close> document. The progress route keeps its sets in
  \<^verbatim>\<open>chunksCompleted\<close> and \<^verbatim>\<open>chunksFailed\<close>; the resume route writes
  \<^verbatim>\<open>completedChunks\<close>. Time is a number of milliseconds. Timestamps other than the expiry,
  the upload speed and the estimated remaining time are left out. Reads and writes of the
  session documents are taken to succeed.
\<close>

record upload_session =
  sess_userId :: string
  sess_fileName :: string
  sess_fileSize :: nat
  sess_fileType :: string
  sess_totalChunks :: nat
  sess_chunkSize :: nat
  sess_chunksCompleted :: "nat list"
  sess_chunksFailed :: "nat list"
  sess_completedChunks :: "nat list"
  sess_status :: string
  sess_progress :: int
  sess_expiresAt :: nat
  sess_videoId :: "string option"
  sess_error :: "string option"

type_synonym session_db = "string \<rightharpoonup> upload_session"

subsection \<open>Chunk paths\<close>

definition generateChunkPath :: "string \<Rightarrow> string \<Rightarrow> nat \<Rightarrow> string" where
  "generateChunkPath userId sessionId chunkIndex =
     (let paddedIndex = padStart 3 (CHR ''0'') (string_of_nat chunkIndex)
      in ''uploads/'' @ userId @ ''/'' @ sessionId @ ''/chunk_'' @ paddedIndex)"

text \<open>\<^verbatim>\<open>fileName.split('.').pop() || 'mp4'\<close>, as both the path generator and finalize compute it.\<close>

definition fileExtension :: "string \<Rightarrow> string" where
  "fileExtension fileName = (if split_pop fileName = [] then ''mp4'' else split_pop fileName)"

definition generateVideoPath :: "string \<Rightarrow> string \<Rightarrow> string \<Rightarrow> string" where
  "generateVideoPath userId videoId fileName =
     (let extension = fileExtension fileName
      in ''videos/'' @ userId @ ''/'' @ videoId @ ''.'' @ extension)"

subsection \<open>Chunk progress reports\<close>

text \<open>
  The body of a progress report. An absent or empty \<^verbatim>\<open>sessionId\<close> or \<^verbatim>\<open>status\<close> is the
  empty string, an undefined \<^verbatim>\<open>chunkIndex\<close> is \<open>None\<close>.
\<close>

record progress_body =
  pb_sessionId :: string
  pb_chunkIndex :: "nat option"
  pb_status :: string

record progress_data =
  pd_progress :: int
  pd_chunksCompleted :: nat
  pd_chunksFailed :: nat
  pd_totalChunks :: nat
  pd_status :: "string option"

text \<open>
  The move of one index between the two arrays: \<^verbatim>\<open>includes\<close>/\<^verbatim>\<open>push\<close> on the array of the
  reported status, \<^verbatim>\<open>filter\<close> on the other. A status other than \<^verbatim>\<open>completed\<close> or
  \<^verbatim>\<open>failed\<close> changes neither.
\<close>

definition updateChunkStatus ::
  "string \<Rightarrow> nat \<Rightarrow> nat list \<times> nat list \<Rightarrow> nat list \<times> nat list" where
  "updateChunkStatus status chunkIndex cs =
     (case cs of (chunksCompleted, chunksFailed) \<Rightarrow>
        if status = ''completed'' then
          ((if chunkIndex \<in> set chunksCompleted then chunksCompleted
            else chunksCompleted @ [chunkIndex]),
           filter (\<lambda>idx. idx \<noteq> chunkIndex) chunksFailed)
        else if status = ''failed'' then
          (filter (\<lambda>idx. idx \<noteq> chunkIndex) chunksCompleted,
           (if chunkIndex \<in> set chunksFailed then chunksFailed
            else chunksFailed @ [chunkIndex]))
        else (chunksCompleted, chunksFailed))"

definition uploadProgress :: "nat \<Rightarrow> nat \<Rightarrow> int" where
  "uploadProgress nCompleted totalChunks =
     (if totalChunks > 0 then js_round (real nCompleted / real totalChunks * 100) else 0)"

definition derivedStatus :: "int \<Rightarrow> nat list \<Rightarrow> nat list \<Rightarrow> string option" where
  "derivedStatus progress chunksCompleted chunksFailed =
     (if progress = 100 then Some ''uploading_complete''
      else if chunksFailed \<noteq> [] then Some ''uploading_with_errors''
      else if chunksCompleted \<noteq> [] then Some ''uploading''
      else None)"

text \<open>What one accepted report writes to the session document.\<close>

definition reportedSession :: "string \<Rightarrow> nat \<Rightarrow> upload_session \<Rightarrow> upload_session" where
  "reportedSession status chunkIndex sessionData =
     (case updateChunkStatus status chunkIndex
             (sess_chunksCompleted sessionData, sess_chunksFailed sessionData) of
        (chunksCompleted, chunksFailed) \<Rightarrow>
          let progress = uploadProgress (length chunksCompleted) (sess_totalChunks sessionData)
          in sessionData
               \<lparr> sess_chunksCompleted := chunksCompleted,
                 sess_chunksFailed := chunksFailed,
                 sess_progress := progress,
                 sess_status :=
                   (case derivedStatus progress chunksCompleted chunksFailed of
                      None \<Rightarrow> sess_status sessionData
                    | Some st \<Rightarrow> st) \<rparr>)"

text \<open>The answer is read off the values just written.\<close>

definition reportAnswer :: "upload_session \<Rightarrow> progress_data" where
  "reportAnswer updated =
     \<lparr> pd_progress = sess_progress updated,
       pd_chunksCompleted = length (sess_chunksCompleted updated),
       pd_chunksFailed = length (sess_chunksFailed updated),
       pd_totalChunks = sess_totalChunks updated,
       pd_status = derivedStatus (sess_progress updated)
                     (sess_chunksCompleted updated) (sess_chunksFailed updated) \<rparr>"

definition progress_POST ::
  "auth \<Rightarrow> progress_body \<Rightarrow> session_db \<Rightarrow> progress_data response \<times> session_db" where
  "progress_POST au body db =
     (case au of
        NoHeader \<Rightarrow> (Failure 401 ''Missing or invalid authorization header'', db)
      | InvalidToken \<Rightarrow> (Failure 401 ''Invalid authentication token'', db)
      | Verified uid \<Rightarrow>
          (case pb_chunkIndex body of
             None \<Rightarrow> (Failure 400 ''Missing required fields: sessionId, chunkIndex, status'', db)
           | Some chunkIndex \<Rightarrow>
               if pb_sessionId body = [] \<or> pb_status body = [] then
                 (Failure 400 ''Missing required fields: sessionId, chunkIndex, status'', db)
               else
                 (case db (pb_sessionId body) of
                    None \<Rightarrow> (Failure 404 ''Upload session not found'', db)
                  | Some sessionData \<Rightarrow>
                      if sess_userId sessionData \<noteq> uid then
                        (Failure 403 ''Unauthorized access to upload session'', db)
                      else
                        (let updated = reportedSession (pb_status body) chunkIndex sessionData
                         in (Success (reportAnswer updated),
                             db(pb_sessionId body \<mapsto> updated))))))"

text \<open>A sequence of reports, each with its own caller and body, applied in order.\<close>

fun reportAll :: "(auth \<times> progress_body) list \<Rightarrow> session_db \<Rightarrow> session_db" where
  "reportAll [] db = db"
| "reportAll ((au, body) # rest) db = reportAll rest (snd (progress_POST au body db))"

definition disjointSets :: "upload_session \<Rightarrow> bool" where
  "disjointSets s = (set (sess_chunksCompleted s) \<inter> set (sess_chunksFailed s) = {})"

section \<open>The object store\<close>

text \<open>
  The bucket as the handlers use it: the objects it holds (path to size in bytes), the paths
  whose \<^verbatim>\<open>exists()\<close> call is rejected (with the message of the rejection), and the signer
  behind \<^verbatim>\<open>getSignedUrl\<close>, which answers a path and an expiry instant with a URL or
  rejects with a message.
\<close>

record bucket =
  objects :: "string \<rightharpoonup> nat"
  faults :: "string \<rightharpoonup> string"
  signer :: "string \<Rightarrow> nat \<Rightarrow> string + string"

definition file_exists :: "bucket \<Rightarrow> string \<Rightarrow> string + bool" where
  "file_exists b path =
     (case faults b path of
        Some msg \<Rightarrow> Inl msg
      | None \<Rightarrow> Inr (objects b path \<noteq> None))"

definition SIGNED_URL_EXPIRY_HOURS :: nat where
  "SIGNED_URL_EXPIRY_HOURS = 1"

section \<open>Resume\<close>

record resume_data =
  rd_uploadSessionId :: string
  rd_totalChunks :: nat
  rd_existingChunks :: "nat list"
  rd_missingChunks :: "nat list"
  rd_chunkUrls :: "nat \<rightharpoonup> string"
  rd_progress :: "int option"
  rd_status :: string

text \<open>
  The existence loop over \<open>0 \<le> i < totalChunks\<close>. A rejected check is caught inside the
  loop and the index counted as missing.
\<close>

fun checkChunks ::
  "bucket \<Rightarrow> string \<Rightarrow> string \<Rightarrow> nat list \<Rightarrow> nat list \<times> nat list \<Rightarrow> nat list \<times> nat list" where
  "checkChunks b userId sid [] (existingChunks, missingChunks) = (existingChunks, missingChunks)"
| "checkChunks b userId sid (i # rest) (existingChunks, missingChunks) =
     (case file_exists b (generateChunkPath userId sid i) of
        Inr True \<Rightarrow> checkChunks b userId sid rest (existingChunks @ [i], missingChunks)
      | Inr False \<Rightarrow> checkChunks b userId sid rest (existingChunks, missingChunks @ [i])
      | Inl err \<Rightarrow> checkChunks b userId sid rest (existingChunks, missingChunks @ [i]))"

text \<open>
  The signing loop over the missing indices. A rejected \<^verbatim>\<open>getSignedUrl\<close> is not caught
  here: it leaves the loop and reaches the handler's outer catch.
\<close>

fun signMissing ::
  "bucket \<Rightarrow> string \<Rightarrow> string \<Rightarrow> nat \<Rightarrow> nat list \<Rightarrow> (nat \<rightharpoonup> string) \<Rightarrow> string + (nat \<rightharpoonup> string)" where
  "signMissing b userId sid expires [] newChunkUrls = Inr newChunkUrls"
| "signMissing b userId sid expires (chunkIndex # rest) newChunkUrls =
     (case signer b (generateChunkPath userId sid chunkIndex) expires of
        Inl err \<Rightarrow> Inl err
      | Inr signedUrl \<Rightarrow>
          signMissing b userId sid expires rest (newChunkUrls(chunkIndex \<mapsto> signedUrl)))"

text \<open>
  \<^verbatim>\<open>Math.round((existingChunks.length / totalChunks) * 100)\<close>; with no chunks the quotient is
  \<^verbatim>\<open>0/0\<close>, not a number, written \<open>None\<close>.
\<close>

definition resumeProgress :: "nat \<Rightarrow> nat \<Rightarrow> int option" where
  "resumeProgress nExisting totalChunks =
     (if totalChunks = 0 then None
      else Some (js_round (real nExisting / real totalChunks * 100)))"

definition resume_POST ::
  "auth \<Rightarrow> string \<Rightarrow> nat \<Rightarrow> bucket \<Rightarrow> session_db \<Rightarrow> resume_data response \<times> session_db" where
  "resume_POST au uploadSessionId now b db =
     (case au of
        NoHeader \<Rightarrow> (Failure 401 ''Missing or invalid authorization header'', db)
      | InvalidToken \<Rightarrow> (Failure 500 ''Internal server error'', db)
      | Verified uid \<Rightarrow>
          if uploadSessionId = [] then (Failure 400 ''Missing uploadSessionId'', db)
          else
            (case db uploadSessionId of
               None \<Rightarrow> (Failure 404 ''Upload session not found'', db)
             | Some sessionData \<Rightarrow>
                 if sess_userId sessionData \<noteq> uid then
                   (Failure 403 ''Unauthorized access to upload session'', db)
                 else if now > sess_expiresAt sessionData then
                   (Failure 410 ''Upload session has expired'', db)
                 else
                   (let totalChunks = sess_totalChunks sessionData in
                    case checkChunks b uid uploadSessionId [0..<totalChunks] ([], []) of
                      (existingChunks, missingChunks) \<Rightarrow>
                        (case signMissing b uid uploadSessionId
                                (now + SIGNED_URL_EXPIRY_HOURS * 60 * 60 * 1000)
                                missingChunks Map.empty of
                           Inl err \<Rightarrow> (Failure 500 ''Internal server error'', db)
                         | Inr newChunkUrls \<Rightarrow>
                             (Success
                                \<lparr> rd_uploadSessionId = uploadSessionId,
                                  rd_totalChunks = totalChunks,
                                  rd_existingChunks = existingChunks,
                                  rd_missingChunks = missingChunks,
                                  rd_chunkUrls = newChunkUrls,
                                  rd_progress = resumeProgress (length existingChunks) totalChunks,
                                  rd_status =
                                    (if length existingChunks = totalChunks
                                     then ''ready_to_finalize'' else ''resuming'') \<rparr>,
                              db(uploadSessionId \<mapsto>
                                   sessionData\<lparr>sess_completedChunks := existingChunks\<rparr>))))))"

text \<open>What the store's check reports for chunk \<open>i\<close> of a session.\<close>

definition reportedPresent :: "bucket \<Rightarrow> string \<Rightarrow> string \<Rightarrow> nat \<Rightarrow> bool" where
  "reportedPresent b userId sid i = (file_exists b (generateChunkPath userId sid i) = Inr True)"

text \<open>Whether the object of chunk \<open>i\<close> is in the store, whatever the check answers.\<close>

definition actuallyPresent :: "bucket \<Rightarrow> string \<Rightarrow> string \<Rightarrow> nat \<Rightarrow> bool" where
  "actuallyPresent b userId sid i = (objects b (generateChunkPath userId sid i) \<noteq> None)"

text \<open>The indices the store reports present, and the others, in index order.\<close>

definition storeExisting :: "bucket \<Rightarrow> string \<Rightarrow> string \<Rightarrow> nat \<Rightarrow> nat list" where
  "storeExisting b userId sid n = filter (reportedPresent b userId sid) [0..<n]"

definition storeMissing :: "bucket \<Rightarrow> string \<Rightarrow> string \<Rightarrow> nat \<Rightarrow> nat list" where
  "storeMissing b userId sid n = filter (\<lambda>i. \<not> reportedPresent b userId sid i) [0..<n]"

text \<open>
  What \<^verbatim>\<open>getSignedUrl\<close> gives for chunk \<open>i\<close> of a session: the URL, or nothing when the call
  is rejected.
\<close>

definition signedUrl :: "bucket \<Rightarrow> string \<Rightarrow> string \<Rightarrow> nat \<Rightarrow> nat \<Rightarrow> string option" where
  "signedUrl b userId sid expires i =
     (case signer b (generateChunkPath userId sid i) expires of
        Inl err \<Rightarrow> None
      | Inr signedUrl \<Rightarrow> Some signedUrl)"

section \<open>Finalize\<close>

text \<open>
  The \<^verbatim>\<open>videos\<close> document. Finalize creates it; the analysis run updates it. The text of
  \<^verbatim>\<open>stepDetails\<close> interpolates run-time values and is not modelled: the document records
  only whether a step description has been written.
\<close>

text \<open>
  The \<^verbatim>\<open>processingMetadata\<close> object: after a finished run the segment count with the numbers
  of successful and failed segments, after an aborted run the failure details.
\<close>

datatype processing_metadata = Counts nat nat nat | FailureInfo

record video_doc =
  vid_videoId :: string
  vid_userId :: string
  vid_name :: string
  vid_fileName :: string
  vid_fileSize :: nat
  vid_uploadSessionId :: string
  vid_status :: string
  vid_storageLocation :: string
  vid_analysisTriggered :: bool
  vid_analysisProgress :: "nat option"
  vid_currentStep :: "string option"
  vid_stepDetails :: bool
  vid_segmentCount :: "int option"
  vid_duration :: "real option"
  vid_processingMetadata :: "processing_metadata option"
  vid_analysisError :: "string option"

text \<open>
  Everything finalize reads and writes: both collections, the bucket, the calls made to
  \<^verbatim>\<open>bucket.combine\<close> (sources and destination, in call order), the chunk paths handed to
  the background \<^verbatim>\<open>cleanupChunks\<close>, and the video ids for which the analysis trigger
  request has been sent.
\<close>

record world =
  sessions :: session_db
  videos :: "string \<rightharpoonup> video_doc"
  store :: bucket
  composeCalls :: "(string list \<times> string) list"
  cleanupQueue :: "string list"
  triggered :: "string list"

text \<open>
  What one finalize call draws from outside: the id \<^verbatim>\<open>uuidv4()\<close> returns, and whether
  \<^verbatim>\<open>bucket.combine\<close> resolves (\<open>None\<close>) or rejects with a message.
\<close>

record finalize_env =
  fe_uuid :: string
  fe_combine :: "string option"

record finalize_data =
  fd_videoId :: string
  fd_status :: string
  fd_storageLocation :: string
  fd_fileName :: string
  fd_fileSize :: nat
  fd_analysisTriggered :: bool

text \<open>
  The verification loop. Here a rejected \<^verbatim>\<open>exists()\<close> is not caught in the loop: it ends
  the loop with the rejection's message.
\<close>

fun verifyChunks ::
  "bucket \<Rightarrow> string \<Rightarrow> string \<Rightarrow> nat list \<Rightarrow> string list \<times> nat list
     \<Rightarrow> string + (string list \<times> nat list)" where
  "verifyChunks b userId sid [] (chunkPaths, missingChunks) = Inr (chunkPaths, missingChunks)"
| "verifyChunks b userId sid (i # rest) (chunkPaths, missingChunks) =
     (let chunkPath = generateChunkPath userId sid i in
      case file_exists b chunkPath of
        Inl err \<Rightarrow> Inl err
      | Inr False \<Rightarrow> verifyChunks b userId sid rest (chunkPaths, missingChunks @ [i])
      | Inr True \<Rightarrow> verifyChunks b userId sid rest (chunkPaths @ [chunkPath], missingChunks))"

definition incompleteMessage :: "nat \<Rightarrow> nat list \<Rightarrow> string" where
  "incompleteMessage totalChunks missingChunks =
     ''Upload incomplete: '' @ string_of_nat (totalChunks - length missingChunks) @ ''/'' @
     string_of_nat totalChunks @ '' chunks found in Cloud Storage. Missing chunks: '' @
     join_nats missingChunks"

text \<open>The handler's outer catch, by the message of what was thrown.\<close>

definition outerCatch :: "string \<Rightarrow> 'a response" where
  "outerCatch msg =
     (if str_includes msg ''Invalid token'' then Failure 401 ''Invalid authentication token''
      else if str_includes msg ''compose'' then Failure 500 ''Failed to merge video chunks''
      else Failure 500 ''Internal server error'')"

text \<open>\<^verbatim>\<open>fileName.replace(/\.[^/.]+$/, '')\<close>: drop a last extension that is not empty and has no slash.\<close>

definition displayName :: "string \<Rightarrow> string" where
  "displayName fileName =
     (let ext = split_pop fileName in
      if length ext < length fileName \<and> ext \<noteq> [] \<and> CHR ''/'' \<notin> set ext
      then take (length fileName - length ext - 1) fileName
      else fileName)"

text \<open>
  The composed object: \<^verbatim>\<open>bucket.combine\<close> resolving puts an object at the destination
  whose size is the sum of the sources'.
\<close>

definition combined :: "bucket \<Rightarrow> string list \<Rightarrow> string \<Rightarrow> bucket" where
  "combined b chunkPaths dest =
     b\<lparr>objects := (objects b)(dest \<mapsto>
          sum_list (map (\<lambda>p. case objects b p of None \<Rightarrow> 0 | Some n \<Rightarrow> n) chunkPaths))\<rparr>"

text \<open>
  The compose step with its own try and catch: the call is logged, then
  the destination is checked; the read of its metadata is taken to succeed. The result is
  the message caught, or the bucket after the compose.
\<close>

definition composeStep :: "finalize_env \<Rightarrow> bucket \<Rightarrow> string list \<Rightarrow> string \<Rightarrow> string + bucket" where
  "composeStep env b chunkPaths finalVideoPath =
     (case fe_combine env of
        Some msg \<Rightarrow> Inl msg
      | None \<Rightarrow>
          (let b' = combined b chunkPaths finalVideoPath in
           case file_exists b' finalVideoPath of
             Inl msg \<Rightarrow> Inl msg
           | Inr False \<Rightarrow> Inl (''Final video file was not created: '' @ finalVideoPath)
           | Inr True \<Rightarrow> Inr b'))"

text \<open>
  The bucket once the compose step is over, whether the step has failed or not: a
  \<^verbatim>\<open>combine\<close> that resolved has put its object.
\<close>

definition composedStore :: "finalize_env \<Rightarrow> bucket \<Rightarrow> string list \<Rightarrow> string \<Rightarrow> bucket" where
  "composedStore env b chunkPaths finalVideoPath =
     (case fe_combine env of
        Some msg \<Rightarrow> b
      | None \<Rightarrow> combined b chunkPaths finalVideoPath)"

text \<open>
  The handler. The video document is created with \<^verbatim>\<open>analysisTriggered\<close> false and updated to
  true before the answer; the model writes the final value at once. The cleanup of the chunks
  and the analysis trigger are started without waiting for them: the call only queues them.
\<close>

definition finalize_POST ::
  "finalize_env \<Rightarrow> auth \<Rightarrow> string \<Rightarrow> world \<Rightarrow> finalize_data response \<times> world" where
  "finalize_POST env au sessionId w =
     (case au of
        NoHeader \<Rightarrow> (Failure 401 ''Missing or invalid authorization header'', w)
      | InvalidToken \<Rightarrow> (Failure 401 ''Invalid authentication token'', w)
      | Verified uid \<Rightarrow>
          if sessionId = [] then (Failure 400 ''Missing required field: sessionId'', w)
          else
            (case sessions w sessionId of
               None \<Rightarrow> (Failure 404 ''Upload session not found'', w)
             | Some sessionData \<Rightarrow>
                 if sess_userId sessionData \<noteq> uid then
                   (Failure 403 ''Unauthorized access to upload session'', w)
                 else
                   (let assembling = sessionData\<lparr>sess_status := ''assembling''\<rparr>;
                        w1 = w\<lparr>sessions := (sessions w)(sessionId \<mapsto> assembling)\<rparr>;
                        totalChunks = sess_totalChunks sessionData
                    in
                    case verifyChunks (store w) uid sessionId [0..<totalChunks] ([], []) of
                      Inl err \<Rightarrow> (outerCatch err, w1)
                    | Inr (chunkPaths, missingChunks) \<Rightarrow>
                        if length missingChunks > 0 then
                          (Failure 400 (incompleteMessage totalChunks missingChunks), w1)
                        else
                          (let videoId = fe_uuid env;
                               finalVideoPath = generateVideoPath uid videoId
                                                  (fileExtension (sess_fileName sessionData));
                               w2 = w1\<lparr>composeCalls :=
                                         composeCalls w1 @ [(chunkPaths, finalVideoPath)]\<rparr>
                           in
                           case composeStep env (store w) chunkPaths finalVideoPath of
                             Inl errorMessage \<Rightarrow>
                               (Failure 500 (''Failed to combine video chunks: '' @ errorMessage),
                                w2\<lparr>store := composedStore env (store w) chunkPaths finalVideoPath,
                                   sessions := (sessions w2)(sessionId \<mapsto>
                                      assembling\<lparr>sess_status := ''failed'',
                                        sess_error :=
                                          Some (''Failed to combine chunks: '' @ errorMessage)\<rparr>)\<rparr>)
                           | Inr b' \<Rightarrow>
                               (let videoDoc =
                                      \<lparr> vid_videoId = videoId,
                                        vid_userId = uid,
                                        vid_name = displayName (sess_fileName sessionData),
                                        vid_fileName = sess_fileName sessionData,
                                        vid_fileSize = sess_fileSize sessionData,
                                        vid_uploadSessionId = sessionId,
                                        vid_status = ''uploaded'',
                                        vid_storageLocation = finalVideoPath,
                                        vid_analysisTriggered = True,
                                        vid_analysisProgress = None,
                                        vid_currentStep = None,
                                        vid_stepDetails = False,
                                        vid_segmentCount = None,
                                        vid_duration = None,
                                        vid_processingMetadata = None,
                                        vid_analysisError = None \<rparr>
                                in
                                (Success
                                   \<lparr> fd_videoId = videoId,
                                     fd_status = ''uploaded'',
                                     fd_storageLocation = finalVideoPath,
                                     fd_fileName = sess_fileName sessionData,
                                     fd_fileSize = sess_fileSize sessionData,
                                     fd_analysisTriggered = True \<rparr>,
                                 w2\<lparr> store := b',
                                     videos := (videos w2)(videoId \<mapsto> videoDoc),
                                     sessions := (sessions w2)(sessionId \<mapsto>
                                       assembling\<lparr>sess_status := ''completed'',
                                         sess_videoId := Some videoId\<rparr>),
                                     cleanupQueue := cleanupQueue w2 @ chunkPaths,
                                     triggered := triggered w2 @ [videoId] \<rparr>))))))"

text \<open>
  The background \<^verbatim>\<open>cleanupChunks\<close>, when it runs and every delete succeeds: the queued
  chunk objects leave the bucket.
\<close>

definition cleanupChunks :: "world \<Rightarrow> world" where
  "cleanupChunks w =
     w\<lparr> store := (store w)\<lparr>objects := (\<lambda>p. if p \<in> set (cleanupQueue w) then None
                                           else objects (store w) p)\<rparr>,
        cleanupQueue := [] \<rparr>"

section \<open>Segmentation\<close>

text \<open>Times and durations are JavaScript numbers; the model takes them as exact reals.\<close>

record VideoSegment =
  seg_segmentNumber :: nat
  seg_startTime :: real
  seg_endTime :: real
  seg_duration :: real
  seg_videoPath :: string
  seg_audioPath :: string
  seg_thumbnailPath :: string
  seg_cloudStoragePath :: string

text \<open>
  What the segmenter meets outside: the duration \<^verbatim>\<open>ffprobe\<close> reports for the file, or the
  error of its failure; and, for each segment number, whether the cuts, the thumbnail, the
  uploads and the upload verification of \<^verbatim>\<open>extractSegment\<close> all succeed (\<open>None\<close>) or one of
  them throws (the error).
\<close>

record segmenter_env =
  probedDuration :: "js_error + real"
  extraction :: "nat \<Rightarrow> js_error option"

definition segmentFileName :: "nat \<Rightarrow> string" where
  "segmentFileName segmentNumber =
     ''segment_'' @ padStart 3 (CHR ''0'') (string_of_nat segmentNumber)"

text \<open>The object \<^verbatim>\<open>extractSegment\<close> returns when every step has succeeded.\<close>

definition segmentRecord ::
  "real \<Rightarrow> real \<Rightarrow> nat \<Rightarrow> string \<Rightarrow> string \<Rightarrow> string \<Rightarrow> VideoSegment" where
  "segmentRecord startTime duration segmentNumber outputDir videoId userId =
     \<lparr> seg_segmentNumber = segmentNumber,
       seg_startTime = startTime,
       seg_endTime = startTime + duration,
       seg_duration = duration,
       seg_videoPath = outputDir @ ''/'' @ segmentFileName segmentNumber @ ''.mp4'',
       seg_audioPath = outputDir @ ''/'' @ segmentFileName segmentNumber @ ''.wav'',
       seg_thumbnailPath = ''videos/'' @ userId @ ''/'' @ videoId @ ''/segments/'' @
                           segmentFileName segmentNumber @ ''_thumbnail.jpg'',
       seg_cloudStoragePath = ''videos/'' @ userId @ ''/'' @ videoId @ ''/segments/'' @
                              segmentFileName segmentNumber @ ''.mp4'' \<rparr>"

definition extractSegment ::
  "segmenter_env \<Rightarrow> real \<Rightarrow> real \<Rightarrow> nat \<Rightarrow> string \<Rightarrow> string \<Rightarrow> string \<Rightarrow> js_error + VideoSegment" where
  "extractSegment env startTime duration segmentNumber outputDir videoId userId =
     (case extraction env segmentNumber of
        Some err \<Rightarrow> Inl err
      | None \<Rightarrow> Inr (segmentRecord startTime duration segmentNumber outputDir videoId userId))"

text \<open>
  The loop \<^verbatim>\<open>for (let i = 0; i < segmentCount; i++)\<close>, with the array built so far. A failing
  extraction leaves the loop.
\<close>

function segmentLoop ::
  "segmenter_env \<Rightarrow> string \<Rightarrow> string \<Rightarrow> real \<Rightarrow> nat \<Rightarrow> nat \<Rightarrow> VideoSegment list
     \<Rightarrow> js_error + VideoSegment list" where
  "segmentLoop env videoId userId duration segmentCount i segments =
     (if i < segmentCount then
        (let startTime = real i * 5;
             endTime = min (real (i + 1) * 5) duration;
             actualDuration = endTime - startTime
         in case extractSegment env startTime actualDuration (i + 1)
                   ''/tmp/video-processing/segments'' videoId userId of
              Inl err \<Rightarrow> Inl err
            | Inr segment \<Rightarrow>
                segmentLoop env videoId userId duration segmentCount (i + 1)
                  (segments @ [segment]))
      else Inr segments)"
  by pat_completeness auto
termination
  by (relation "measure (\<lambda>(env, videoId, userId, duration, segmentCount, i, segments).
                  segmentCount - i)") auto

declare segmentLoop.simps [simp del]

text \<open>
  \<^verbatim>\<open>Math.ceil(duration / 5)\<close> as a loop bound: a quotient that is not positive bounds no
  iteration.
\<close>

definition segmentVideo :: "segmenter_env \<Rightarrow> string \<Rightarrow> string \<Rightarrow> string + VideoSegment list" where
  "segmentVideo env videoId userId =
     (case probedDuration env of
        Inl err \<Rightarrow> Inl (''Video segmentation failed: '' @ rendered err)
      | Inr duration \<Rightarrow>
          (let segmentCount = nat \<lceil>duration / 5\<rceil> in
           case segmentLoop env videoId userId duration segmentCount 0 [] of
             Inl err \<Rightarrow> Inl (''Video segmentation failed: '' @ rendered err)
           | Inr segments \<Rightarrow> Inr segments))"

text \<open>The segment the loop pushes in iteration \<open>i\<close> for a video of duration \<open>D\<close>.\<close>

definition segmentAt :: "string \<Rightarrow> string \<Rightarrow> real \<Rightarrow> nat \<Rightarrow> VideoSegment" where
  "segmentAt videoId userId D i =
     segmentRecord (real i * 5) (min (real (i + 1) * 5) D - real i * 5) (i + 1)
       ''/tmp/video-processing/segments'' videoId userId"

section \<open>Inference service calls\<close>

text \<open>
  What one attempt of a service call meets: something in the attempt's \<^verbatim>\<open>try\<close> block throws
  before a response is classified (the file is not readable, \<^verbatim>\<open>fetch\<close> rejects or is
  aborted by its timer, the body does not parse), or a response arrives with its status, its
  status text and its body. A service is the outcome it gives to each attempt, by attempt
  number. The payload of an accepted response is its body.
\<close>

datatype attempt_outcome = Thrown js_error | HttpResponse nat string string

datatype call_event = Attempt nat | Wait nat

text \<open>\<^verbatim>\<open>response.ok\<close>\<close>

definition response_ok :: "nat \<Rightarrow> bool" where
  "response_ok status = (200 \<le> status \<and> status \<le> 299)"

definition isRetryableError :: "nat \<Rightarrow> string \<Rightarrow> bool" where
  "isRetryableError status errorText =
     (if status \<in> set [500, 502, 503, 504, 429] then True
      else if str_includes errorText ''server encountered an error'' \<or>
              str_includes errorText ''try again in 30 seconds'' \<or>
              str_includes errorText ''temporarily unavailable'' \<or>
              str_includes errorText ''timeout'' then True
      else False)"

definition isRetryableNetworkError :: "string \<Rightarrow> bool" where
  "isRetryableNetworkError message =
     (let errorMessage = toLowerCase message in
      str_includes errorMessage ''timeout'' \<or>
      str_includes errorMessage ''network'' \<or>
      str_includes errorMessage ''econnreset'' \<or>
      str_includes errorMessage ''enotfound'' \<or>
      str_includes errorMessage ''aborted'' \<or>
      str_includes errorMessage ''fetch'')"

definition maxRetries :: nat where
  "maxRetries = 3"

definition baseDelay :: nat where
  "baseDelay = 2000"

definition statusMessage :: "nat \<Rightarrow> string \<Rightarrow> string" where
  "statusMessage status statusText =
     ''AI service responded with status '' @ string_of_nat status @ '': '' @ statusText"

text \<open>
  The \<^verbatim>\<open>try\<close> block of one attempt of the visual call: it returns the payload, waits and
  continues with the next attempt, or throws.
\<close>

datatype try_result = Returned string | WaitAndContinue nat | Threw js_error

definition visualTry :: "attempt_outcome \<Rightarrow> nat \<Rightarrow> try_result" where
  "visualTry outcome attempt =
     (case outcome of
        Thrown err \<Rightarrow> Threw err
      | HttpResponse status statusText body \<Rightarrow>
          if \<not> response_ok status then
            (if isRetryableError status body \<and> attempt < maxRetries
             then WaitAndContinue (baseDelay * 2 ^ (attempt - 1))
             else Threw (newError (statusMessage status statusText)))
          else Returned body)"

text \<open>
  The loop \<^verbatim>\<open>for (let attempt = 1; attempt <= maxRetries; attempt++)\<close> with the record of what
  the call has done so far. In the \<^verbatim>\<open>catch\<close> block an error that is neither retried nor
  thrown on the last attempt falls out of the block, and the loop goes on to the next attempt.
  The call returns the payload or the message of the error it throws.
\<close>

function visualLoop ::
  "(nat \<Rightarrow> attempt_outcome) \<Rightarrow> nat \<Rightarrow> call_event list \<Rightarrow> (string + string) \<times> call_event list" where
  "visualLoop service attempt events =
     (if attempt \<le> maxRetries then
        (case visualTry (service attempt) attempt of
           Returned body \<Rightarrow> (Inr body, events @ [Attempt attempt])
         | WaitAndContinue delay \<Rightarrow>
             visualLoop service (attempt + 1) (events @ [Attempt attempt, Wait delay])
         | Threw err \<Rightarrow>
             if isRetryableNetworkError (error_message err) \<and> attempt < maxRetries then
               visualLoop service (attempt + 1)
                 (events @ [Attempt attempt, Wait (baseDelay * 2 ^ (attempt - 1))])
             else if attempt = maxRetries then
               (Inl (''Self-hosted visual analysis failed after '' @ string_of_nat maxRetries @
                     '' attempts: '' @ rendered err),
                events @ [Attempt attempt])
             else visualLoop service (attempt + 1) (events @ [Attempt attempt]))
      else (Inl ''Visual analysis failed - should not reach here'', events))"
  by pat_completeness auto
termination
  by (relation "measure (\<lambda>(service, attempt, events). maxRetries + 1 - attempt)") auto

declare visualLoop.simps [simp del]

definition callVisualAnalysisService ::
  "(nat \<Rightarrow> attempt_outcome) \<Rightarrow> (string + string) \<times> call_event list" where
  "callVisualAnalysisService service = visualLoop service 1 []"

text \<open>
  The audio call has no loop: one attempt, and whatever it throws is thrown on. The call
  returns the payload or the error.
\<close>

definition callTranscriptionService ::
  "(nat \<Rightarrow> attempt_outcome) \<Rightarrow> (js_error + string) \<times> call_event list" where
  "callTranscriptionService service =
     (case service 1 of
        Thrown err \<Rightarrow> (Inl err, [Attempt 1])
      | HttpResponse status statusText body \<Rightarrow>
          if \<not> response_ok status then
            (Inl (newError (statusMessage status statusText)), [Attempt 1])
          else (Inr body, [Attempt 1]))"

text \<open>
  What the analysis of the segments meets, by segment number: whether the local audio file
  can be read, the transcription service, whether the download of the segment from the
  bucket and the \<^verbatim>\<open>stat\<close> of the downloaded file succeed (\<open>None\<close>) or what they throw, the
  visual service, and whether the write of the results to the segment document succeeds.
\<close>

record analysis_env =
  audioReadable :: "nat \<Rightarrow> bool"
  audioService :: "nat \<Rightarrow> nat \<Rightarrow> attempt_outcome"
  segmentDownload :: "nat \<Rightarrow> js_error option"
  segmentStat :: "nat \<Rightarrow> js_error option"
  visualService :: "nat \<Rightarrow> nat \<Rightarrow> attempt_outcome"
  segmentSave :: "nat \<Rightarrow> bool"

definition analyzeAudioSegment :: "analysis_env \<Rightarrow> VideoSegment \<Rightarrow> string + string" where
  "analyzeAudioSegment env segment =
     (if \<not> audioReadable env (seg_segmentNumber segment) then
        Inl (''Self-hosted audio analysis failed: '' @
             rendered (newError (''Audio file not found: '' @ seg_audioPath segment)))
      else
        (case fst (callTranscriptionService (audioService env (seg_segmentNumber segment))) of
           Inl err \<Rightarrow> Inl (''Self-hosted audio analysis failed: '' @ rendered err)
         | Inr transcript \<Rightarrow> Inr transcript))"

text \<open>
  The download of a segment to a temporary file: \<open>None\<close> when it succeeds, or the message of
  the error it throws. A failing \<^verbatim>\<open>stat\<close> of the downloaded file is wrapped twice, by its own
  \<^verbatim>\<open>catch\<close> and by the one around the whole download.
\<close>

definition downloadSegmentFromStorage :: "analysis_env \<Rightarrow> nat \<Rightarrow> string option" where
  "downloadSegmentFromStorage env segmentNumber =
     (case segmentDownload env segmentNumber of
        Some err \<Rightarrow> Some (''Failed to download segment: '' @ rendered err)
      | None \<Rightarrow>
          (case segmentStat env segmentNumber of
             Some statError \<Rightarrow>
               Some (''Failed to download segment: '' @
                     rendered (newError (''Downloaded file verification failed: '' @
                                         rendered statError)))
           | None \<Rightarrow> None))"

definition analyzeVideoSegment :: "analysis_env \<Rightarrow> VideoSegment \<Rightarrow> string + string" where
  "analyzeVideoSegment env segment =
     (case downloadSegmentFromStorage env (seg_segmentNumber segment) of
        Some msg \<Rightarrow>
          Inl (''Self-hosted visual analysis failed for Cloud Storage path '' @
               seg_cloudStoragePath segment @ '': '' @ msg)
      | None \<Rightarrow>
        (case fst (callVisualAnalysisService (visualService env (seg_segmentNumber segment))) of
           Inl msg \<Rightarrow>
             Inl (''Self-hosted visual analysis failed for Cloud Storage path '' @
                  seg_cloudStoragePath segment @ '': '' @ msg)
         | Inr detections \<Rightarrow> Inr detections))"

text \<open>
  An outcome the visual call classifies as retryable: a response that is not ok and
  passes \<^verbatim>\<open>isRetryableError\<close>, or a thrown error that passes \<^verbatim>\<open>isRetryableNetworkError\<close>.
  An accepted outcome is an ok response, with its body.
\<close>

definition retryable :: "attempt_outcome \<Rightarrow> bool" where
  "retryable outcome =
     (case outcome of
        Thrown err \<Rightarrow> isRetryableNetworkError (error_message err)
      | HttpResponse status statusText body \<Rightarrow>
          \<not> response_ok status \<and> isRetryableError status body)"



section \<open>The analysis run\<close>

text \<open>
  One \<^verbatim>\<open>update({...})\<close> of the video document: the fields it sets. As in the document, of
  \<^verbatim>\<open>stepDetails\<close> only the presence is kept. Writes to the video document are taken to
  succeed.
\<close>

record video_update =
  up_status :: "string option"
  up_analysisProgress :: "nat option"
  up_currentStep :: "string option"
  up_stepDetails :: bool
  up_segmentCount :: "int option"
  up_duration :: "real option"
  up_processingMetadata :: "processing_metadata option"
  up_analysisError :: "string option"

definition noUpdate :: video_update where
  "noUpdate =
     \<lparr> up_status = None, up_analysisProgress = None, up_currentStep = None,
       up_stepDetails = False, up_segmentCount = None, up_duration = None,
       up_processingMetadata = None, up_analysisError = None \<rparr>"

text \<open>The three shapes of progress write: with step label and details, bare, with details only.\<close>

definition stepUpdate :: "nat \<Rightarrow> string \<Rightarrow> video_update" where
  "stepUpdate p step =
     noUpdate\<lparr>up_analysisProgress := Some p, up_currentStep := Some step, up_stepDetails := True\<rparr>"

definition progressOnly :: "nat \<Rightarrow> video_update" where
  "progressOnly p = noUpdate\<lparr>up_analysisProgress := Some p\<rparr>"

definition batchUpdate :: "nat \<Rightarrow> video_update" where
  "batchUpdate p = noUpdate\<lparr>up_analysisProgress := Some p, up_stepDetails := True\<rparr>"

text \<open>An update merges into the document: a field it does not set keeps its value.\<close>

definition applyUpdate :: "video_update \<Rightarrow> video_doc \<Rightarrow> video_doc" where
  "applyUpdate u d =
     d\<lparr> vid_status := (case up_status u of None \<Rightarrow> vid_status d | Some st \<Rightarrow> st),
        vid_analysisProgress :=
          (case up_analysisProgress u of None \<Rightarrow> vid_analysisProgress d | Some p \<Rightarrow> Some p),
        vid_currentStep :=
          (case up_currentStep u of None \<Rightarrow> vid_currentStep d | Some step \<Rightarrow> Some step),
        vid_stepDetails := (vid_stepDetails d \<or> up_stepDetails u),
        vid_segmentCount :=
          (case up_segmentCount u of None \<Rightarrow> vid_segmentCount d | Some n \<Rightarrow> Some n),
        vid_duration := (case up_duration u of None \<Rightarrow> vid_duration d | Some x \<Rightarrow> Some x),
        vid_processingMetadata :=
          (case up_processingMetadata u of None \<Rightarrow> vid_processingMetadata d
           | Some m \<Rightarrow> Some m),
        vid_analysisError :=
          (case up_analysisError u of None \<Rightarrow> vid_analysisError d | Some e \<Rightarrow> Some e) \<rparr>"

text \<open>
  What a run does, in order: writes to the video document, the main work of a stage (the
  batch write of the placeholder segment documents and the analysis of a batch carry the
  segment numbers concerned), the write of one segment's analysis results, and the removal of
  the local files.
\<close>

datatype stage =
    Download | Validate | Standardize | ExtractAudio | Segmentation | Verification
  | StoreSegments "nat list" | InitAnalyzers | AnalyzeBatch "nat list"

datatype event = Update video_update | Work stage | SegmentSaved nat | Cleanup

text \<open>
  What a run meets outside. For each sequential stage, \<open>None\<close> when it succeeds or the message
  it throws; for the download, the error that \<^verbatim>\<open>downloadVideo\<close> catches and wraps;
  validation yields the probed duration of the downloaded file, and the segmenter probes the
  standardized copy itself.
\<close>

record run_env =
  download :: "js_error option"
  validate :: "string + real"
  hardwareEncoding :: "string option"
  softwareEncoding :: "string option"
  audioExtraction :: "string option"
  segmenter :: segmenter_env
  verification :: "string option"
  batchCommit :: "string option"
  analyzers :: "string option"
  analysis :: analysis_env

text \<open>Hardware encoding first, software encoding when it fails.\<close>

definition standardizeVideo :: "run_env \<Rightarrow> string option" where
  "standardizeVideo env =
     (case hardwareEncoding env of None \<Rightarrow> None | Some hardwareError \<Rightarrow> softwareEncoding env)"

definition SEGMENT_DURATION :: nat where
  "SEGMENT_DURATION = 30"

definition PARALLEL_LIMIT :: nat where
  "PARALLEL_LIMIT = 2"

text \<open>Steps 1 to 8: the events, and the message thrown or the segments created.\<close>

definition prepare :: "string \<Rightarrow> string \<Rightarrow> run_env \<Rightarrow> event list \<times> (string + VideoSegment list)" where
  "prepare videoId userId env =
     (let e1 = [Update (stepUpdate 5 ''Downloading video''), Work Download] in
      case download env of
        Some err \<Rightarrow> (e1, Inl (''Failed to download video: '' @ rendered err))
      | None \<Rightarrow>
     (let e2 = e1 @ [Update (stepUpdate 10 ''Validating video''), Work Validate] in
      case validate env of
        Inl msg \<Rightarrow> (e2, Inl msg)
      | Inr duration \<Rightarrow>
     (let e3 = e2 @ [Update (noUpdate\<lparr>up_duration := Some duration\<rparr>),
                     Update (stepUpdate 15 ''Standardizing video''), Work Standardize] in
      case standardizeVideo env of
        Some msg \<Rightarrow> (e3, Inl msg)
      | None \<Rightarrow>
     (let e4 = e3 @ [Update (stepUpdate 18 ''Extracting audio''), Work ExtractAudio] in
      case audioExtraction env of
        Some msg \<Rightarrow> (e4, Inl msg)
      | None \<Rightarrow>
     (let segmentCount = \<lceil>duration / real SEGMENT_DURATION\<rceil>;
          e5 = e4 @ [Update ((stepUpdate 20 ''Planning segmentation (Speed Optimized)'')
                               \<lparr>up_segmentCount := Some segmentCount\<rparr>),
                     Update (stepUpdate 25 ''Creating video segments''), Work Segmentation] in
      case segmentVideo (segmenter env) videoId userId of
        Inl msg \<Rightarrow> (e5, Inl msg)
      | Inr segments \<Rightarrow>
     (let e6 = e5 @ [Update (stepUpdate 35 ''Verifying segment availability''),
                     Work Verification] in
      case verification env of
        Some msg \<Rightarrow> (e6, Inl msg)
      | None \<Rightarrow>
     (let e7 = e6 @ [Update (progressOnly 40),
                     Update (stepUpdate 45 ''Storing segment metadata''),
                     Work (StoreSegments (map seg_segmentNumber segments))] in
      case batchCommit env of
        Some msg \<Rightarrow> (e7, Inl msg)
      | None \<Rightarrow>
     (let e8 = e7 @ [Update (progressOnly 60),
                     Update (stepUpdate 65 ''Initializing AI services''),
                     Work InitAnalyzers] in
      case analyzers env of
        Some msg \<Rightarrow> (e8, Inl msg)
      | None \<Rightarrow>
          (e8 @ [Update (progressOnly 70),
                 Update (stepUpdate 70 ''AI Analysis (Self-Hosted Parallel Processing)'')],
           Inr segments)))))))))"

text \<open>\<^verbatim>\<open>xs.slice(i, j)\<close>\<close>

definition slice :: "'a list \<Rightarrow> nat \<Rightarrow> nat \<Rightarrow> 'a list" where
  "slice xs i j = take (j - i) (drop i xs)"

text \<open>The loop that cuts the segments into batches of \<^verbatim>\<open>PARALLEL_LIMIT\<close>.\<close>

function segmentChunksFrom ::
  "VideoSegment list \<Rightarrow> nat \<Rightarrow> VideoSegment list list \<Rightarrow> VideoSegment list list" where
  "segmentChunksFrom segments i segmentChunks =
     (if i < length segments then
        segmentChunksFrom segments (i + PARALLEL_LIMIT)
          (segmentChunks @ [slice segments i (i + PARALLEL_LIMIT)])
      else segmentChunks)"
  by pat_completeness auto
termination
  by (relation "measure (\<lambda>(segments, i, segmentChunks). length segments - i)")
     (auto simp: PARALLEL_LIMIT_def)

declare segmentChunksFrom.simps [simp del]

text \<open>
  The analysis of one segment: both calls run, and the \<^verbatim>\<open>try\<close> around them turns a rejection
  of either into a failure result.
\<close>

datatype chunk_result = SuccessResult VideoSegment string string | FailureResult VideoSegment string

definition analyzeSegment :: "analysis_env \<Rightarrow> VideoSegment \<Rightarrow> chunk_result" where
  "analyzeSegment env segment =
     (case analyzeAudioSegment env segment of
        Inl err \<Rightarrow> FailureResult segment err
      | Inr audioResult \<Rightarrow>
          (case analyzeVideoSegment env segment of
             Inl err \<Rightarrow> FailureResult segment err
           | Inr visualResult \<Rightarrow> SuccessResult segment audioResult visualResult))"

record counters =
  completedSegments :: nat
  successfulSegments :: nat
  failedSegments :: nat

text \<open>The database updates of one batch: a failed result is counted, a success is written.\<close>

fun recordResults ::
  "analysis_env \<Rightarrow> chunk_result list \<Rightarrow> event list \<times> counters \<Rightarrow> event list \<times> counters" where
  "recordResults env [] (events, c) = (events, c)"
| "recordResults env (FailureResult segment err # results) (events, c) =
     recordResults env results (events, c\<lparr>failedSegments := failedSegments c + 1\<rparr>)"
| "recordResults env (SuccessResult segment audioResult visualResult # results) (events, c) =
     (if segmentSave env (seg_segmentNumber segment) then
        recordResults env results
          (events @ [SegmentSaved (seg_segmentNumber segment)],
           c\<lparr>successfulSegments := successfulSegments c + 1\<rparr>)
      else recordResults env results (events, c\<lparr>failedSegments := failedSegments c + 1\<rparr>))"

definition chunkProgress :: "nat \<Rightarrow> nat \<Rightarrow> nat" where
  "chunkProgress chunkIndex nChunks =
     70 + nat (js_round (real chunkIndex / real nChunks * 25))"

text \<open>Step 9: the batches in order, from batch \<open>chunkIndex\<close> on.\<close>

fun processChunks ::
  "analysis_env \<Rightarrow> nat \<Rightarrow> nat \<Rightarrow> VideoSegment list list \<Rightarrow> event list \<times> counters
     \<Rightarrow> event list \<times> counters" where
  "processChunks env nChunks chunkIndex [] (events, c) = (events, c)"
| "processChunks env nChunks chunkIndex (chunk # rest) (events, c) =
     (let announced = events @ [Update (batchUpdate (chunkProgress chunkIndex nChunks)),
                                Work (AnalyzeBatch (map seg_segmentNumber chunk))];
          chunkResults = map (analyzeSegment env) chunk
      in case recordResults env chunkResults (announced, c) of
           (events', c') \<Rightarrow>
             processChunks env nChunks (chunkIndex + 1) rest
               (events', c'\<lparr>completedSegments := completedSegments c' + length chunk\<rparr>))"

text \<open>
  The final status. With no segment the rate is \<^verbatim>\<open>0/0\<close>, not a number, and both
  comparisons are false.
\<close>

definition finalStatus :: "nat \<Rightarrow> nat \<Rightarrow> string" where
  "finalStatus successful n =
     (if n = 0 then ''analysis_failed''
      else
        (let successRate = real successful / real n in
         if successRate \<ge> 0.9 then ''analysis_complete''
         else if successRate \<ge> 0.5 then ''analysis_partial''
         else ''analysis_failed''))"

definition finalUpdate :: "nat \<Rightarrow> counters \<Rightarrow> video_update" where
  "finalUpdate n c =
     (let status = finalStatus (successfulSegments c) n in
      noUpdate
        \<lparr> up_status := Some status,
          up_analysisProgress := Some 100,
          up_currentStep :=
            Some (if status = ''analysis_complete'' then ''Analysis complete''
                  else if status = ''analysis_partial'' then ''Analysis partially complete''
                  else ''Analysis failed''),
          up_stepDetails := True,
          up_processingMetadata :=
            Some (Counts n (successfulSegments c) (failedSegments c)) \<rparr>)"

definition failureUpdate :: "string \<Rightarrow> video_update" where
  "failureUpdate msg =
     noUpdate
       \<lparr> up_status := Some ''analysis_failed'',
         up_analysisError := Some msg,
         up_currentStep := Some ''Analysis failed'',
         up_stepDetails := True,
         up_processingMetadata := Some FailureInfo \<rparr>"

text \<open>
  The background run. The \<^verbatim>\<open>finally\<close> block removes the local files when there are any,
  before the \<^verbatim>\<open>catch\<close> block writes the failure.
\<close>

definition processVideoInBackground :: "string \<Rightarrow> string \<Rightarrow> run_env \<Rightarrow> event list" where
  "processVideoInBackground videoId userId env =
     (case prepare videoId userId env of
        (events, Inl msg) \<Rightarrow>
          events @ (if download env = None then [Cleanup] else []) @
          [Update (failureUpdate msg)]
      | (events, Inr segments) \<Rightarrow>
          (let segmentChunks = segmentChunksFrom segments 0 [] in
           case processChunks (analysis env) (length segmentChunks) 0 segmentChunks
                  (events, \<lparr> completedSegments = 0, successfulSegments = 0,
                              failedSegments = 0 \<rparr>) of
             (events', c) \<Rightarrow>
               events' @ [Update (finalUpdate (length segments) c), Cleanup]))"


text \<open>The progress values a sequence of events persists, in order.\<close>

fun progressValues :: "event list \<Rightarrow> nat list" where
  "progressValues [] = []"
| "progressValues (Update u # es) =
     (case up_analysisProgress u of
        None \<Rightarrow> progressValues es
      | Some p \<Rightarrow> p # progressValues es)"
| "progressValues (e # es) = progressValues es"

text \<open>
  Every stage's work comes right after a write that pairs a progress value with a step
  description: the step details, and the step label too unless the work is the analysis of a
  batch. \<open>prev\<close> is the event before the list.
\<close>

fun isBatch :: "stage \<Rightarrow> bool" where
  "isBatch (AnalyzeBatch ns) = True"
| "isBatch s = False"

fun workAnnounced :: "event option \<Rightarrow> event list \<Rightarrow> bool" where
  "workAnnounced prev [] = True"
| "workAnnounced prev (Work s # es) =
     ((case prev of
         Some (Update u) \<Rightarrow>
           up_analysisProgress u \<noteq> None \<and> up_stepDetails u \<and>
           (isBatch s \<or> up_currentStep u \<noteq> None)
       | _ \<Rightarrow> False) \<and>
      workAnnounced (Some (Work s)) es)"
| "workAnnounced prev (e # es) = workAnnounced (Some e) es"

text \<open>The video document after the updates among the events.\<close>

fun documentAfter :: "event list \<Rightarrow> video_doc \<Rightarrow> video_doc" where
  "documentAfter [] d = d"
| "documentAfter (Update u # es) d = documentAfter es (applyUpdate u d)"
| "documentAfter (e # es) d = documentAfter es d"

text \<open>The segment numbers of the placeholder documents written, and of the segments analyzed.\<close>

fun storedSegments :: "event list \<Rightarrow> nat list" where
  "storedSegments [] = []"
| "storedSegments (Work (StoreSegments ns) # es) = ns @ storedSegments es"
| "storedSegments (e # es) = storedSegments es"

fun analyzedSegments :: "event list \<Rightarrow> nat list" where
  "analyzedSegments [] = []"
| "analyzedSegments (Work (AnalyzeBatch ns) # es) = ns @ analyzedSegments es"
| "analyzedSegments (e # es) = analyzedSegments es"

text \<open>A segment counts as successful when both calls return and its results are written.\<close>

definition segmentSucceeds :: "analysis_env \<Rightarrow> VideoSegment \<Rightarrow> bool" where
  "segmentSucceeds env segment =
     (\<not> isl (analyzeAudioSegment env segment) \<and> \<not> isl (analyzeVideoSegment env segment) \<and>
      segmentSave env (seg_segmentNumber segment))"

text \<open>The events of one batch: its progress write, its analysis, the results written.\<close>

definition batchEvents :: "analysis_env \<Rightarrow> nat \<Rightarrow> nat \<Rightarrow> VideoSegment list \<Rightarrow> event list" where
  "batchEvents env nChunks chunkIndex chunk =
     [Update (batchUpdate (chunkProgress chunkIndex nChunks)),
      Work (AnalyzeBatch (map seg_segmentNumber chunk))] @
     map (\<lambda>segment. SegmentSaved (seg_segmentNumber segment))
       (filter (segmentSucceeds env) chunk)"

fun batchesFrom :: "analysis_env \<Rightarrow> nat \<Rightarrow> nat \<Rightarrow> VideoSegment list list \<Rightarrow> event list" where
  "batchesFrom env nChunks chunkIndex [] = []"
| "batchesFrom env nChunks chunkIndex (chunk # rest) =
     batchEvents env nChunks chunkIndex chunk @ batchesFrom env nChunks (chunkIndex + 1) rest"

text \<open>The counters after the segments \<open>segs\<close> have been processed.\<close>

definition counted :: "analysis_env \<Rightarrow> VideoSegment list \<Rightarrow> counters \<Rightarrow> counters" where
  "counted env segs c =
     \<lparr> completedSegments = completedSegments c + length segs,
       successfulSegments = successfulSegments c + length (filter (segmentSucceeds env) segs),
       failedSegments =
         failedSegments c + length (filter (\<lambda>s. \<not> segmentSucceeds env s) segs) \<rparr>"

text \<open>The events of steps 1 to 8 when all of them succeed.\<close>

definition preparedEvents :: "real \<Rightarrow> VideoSegment list \<Rightarrow> event list" where
  "preparedEvents duration segments =
     [Update (stepUpdate 5 ''Downloading video''), Work Download,
      Update (stepUpdate 10 ''Validating video''), Work Validate,
      Update (noUpdate\<lparr>up_duration := Some duration\<rparr>),
      Update (stepUpdate 15 ''Standardizing video''), Work Standardize,
      Update (stepUpdate 18 ''Extracting audio''), Work ExtractAudio,
      Update ((stepUpdate 20 ''Planning segmentation (Speed Optimized)'')
                \<lparr>up_segmentCount := Some \<lceil>duration / real SEGMENT_DURATION\<rceil>\<rparr>),
      Update (stepUpdate 25 ''Creating video segments''), Work Segmentation,
      Update (stepUpdate 35 ''Verifying segment availability''), Work Verification,
      Update (progressOnly 40),
      Update (stepUpdate 45 ''Storing segment metadata''),
      Work (StoreSegments (map seg_segmentNumber segments)),
      Update (progressOnly 60),
      Update (stepUpdate 65 ''Initializing AI services''), Work InitAnalyzers,
      Update (progressOnly 70),
      Update (stepUpdate 70 ''AI Analysis (Self-Hosted Parallel Processing)'')]"

definition noCounts :: counters where
  "noCounts = \<lparr> completedSegments = 0, successfulSegments = 0, failedSegments = 0 \<rparr>"

section \<open>Example data\<close>

text \<open>A two-chunk session of user \<open>u\<close> and buckets in which its chunks are or are not present.\<close>

definition exampleSession :: upload_session where
  "exampleSession =
     \<lparr> sess_userId = ''u'', sess_fileName = ''clip.mov'', sess_fileSize = 2048,
       sess_fileType = ''video/quicktime'', sess_totalChunks = 2, sess_chunkSize = 1024,
       sess_chunksCompleted = [], sess_chunksFailed = [], sess_completedChunks = [],
       sess_status = ''uploading'', sess_progress = 0, sess_expiresAt = 1000,
       sess_videoId = None, sess_error = None \<rparr>"

definition exampleSigner :: "string \<Rightarrow> nat \<Rightarrow> string + string" where
  "exampleSigner path expires = Inr (''https://signed.example/'' @ path)"

definition bothChunks :: bucket where
  "bothChunks =
     \<lparr> objects = [''uploads/u/s/chunk_000'' \<mapsto> 1024, ''uploads/u/s/chunk_001'' \<mapsto> 1024],
       faults = Map.empty, signer = exampleSigner \<rparr>"

definition firstChunkOnly :: bucket where
  "firstChunkOnly =
     \<lparr> objects = [''uploads/u/s/chunk_000'' \<mapsto> 1024],
       faults = Map.empty, signer = exampleSigner \<rparr>"

text \<open>Both objects are there, but the check of the second one is rejected.\<close>

definition secondCheckRejected :: bucket where
  "secondCheckRejected =
     \<lparr> objects = [''uploads/u/s/chunk_000'' \<mapsto> 1024, ''uploads/u/s/chunk_001'' \<mapsto> 1024],
       faults = [''uploads/u/s/chunk_001'' \<mapsto> ''socket hang up''], signer = exampleSigner \<rparr>"

text \<open>Only the first object is there, and every signing call is rejected.\<close>

definition signingRejected :: bucket where
  "signingRejected =
     \<lparr> objects = [''uploads/u/s/chunk_000'' \<mapsto> 1024],
       faults = Map.empty, signer = (\<lambda>path expires. Inl ''invalid_grant'') \<rparr>"

definition worldWith :: "upload_session \<Rightarrow> bucket \<Rightarrow> world" where
  "worldWith sd b =
     \<lparr> sessions = [''s'' \<mapsto> sd], videos = Map.empty, store = b,
       composeCalls = [], cleanupQueue = [], triggered = [] \<rparr>"

definition firstCall :: finalize_env where
  "firstCall = \<lparr> fe_uuid = ''v1'', fe_combine = None \<rparr>"

definition secondCall :: finalize_env where
  "secondCall = \<lparr> fe_uuid = ''v2'', fe_combine = None \<rparr>"

text \<open>The world after a first, successful finalize whose background cleanup has not run yet.\<close>

definition finalizedOnce :: world where
  "finalizedOnce = snd (finalize_POST firstCall (Verified ''u'') ''s'' (worldWith exampleSession bothChunks))"

definition completedSession :: upload_session where
  "completedSession = exampleSession\<lparr>sess_status := ''completed'', sess_videoId := Some ''v1''\<rparr>"

text \<open>Reports used as examples: indices 0 and 1 of session \<open>s\<close>, by its owner.\<close>

definition exampleReport :: "nat \<Rightarrow> string \<Rightarrow> auth \<times> progress_body" where
  "exampleReport i st =
     (Verified ''u'', \<lparr> pb_sessionId = ''s'', pb_chunkIndex = Some i, pb_status = st \<rparr>)"

text \<open>The example session with counters that claim both chunks are uploaded.\<close>

definition staleSession :: upload_session where
  "staleSession = exampleSession\<lparr>sess_chunksCompleted := [0, 1], sess_chunksFailed := [],
      sess_completedChunks := [0, 1], sess_progress := 100\<rparr>"

text \<open>A segmenter environment in which the file lasts \<open>D\<close> seconds and nothing fails.\<close>

definition allExtracted :: "real \<Rightarrow> segmenter_env" where
  "allExtracted D = \<lparr> probedDuration = Inr D, extraction = (\<lambda>n. None) \<rparr>"


definition alwaysBusy :: "nat \<Rightarrow> attempt_outcome" where
  "alwaysBusy attempt = HttpResponse 503 ''Service Unavailable'' ''busy''"

definition alwaysMalformed :: "nat \<Rightarrow> attempt_outcome" where
  "alwaysMalformed attempt = HttpResponse 400 ''Bad Request'' ''no file''"

text \<open>
  Run environments used as examples: everything succeeds on a video of \<open>D\<close> seconds; and the
  same where the analysis calls of the segments numbered in \<open>bad\<close> fail at every attempt.
\<close>

definition failingFor :: "nat list \<Rightarrow> analysis_env" where
  "failingFor bad =
     \<lparr> audioReadable = (\<lambda>n. True),
       audioService = (\<lambda>n attempt. HttpResponse 200 ''OK'' ''hello''),
       segmentDownload = (\<lambda>n. None), segmentStat = (\<lambda>n. None),
       visualService = (\<lambda>n attempt. if n \<in> set bad then alwaysBusy attempt
                                      else HttpResponse 200 ''OK'' ''{}''),
       segmentSave = (\<lambda>n. True) \<rparr>"

definition smoothRun :: "real \<Rightarrow> nat list \<Rightarrow> run_env" where
  "smoothRun D bad =
     \<lparr> download = None, validate = Inr D, hardwareEncoding = Some ''no encoder'',
       softwareEncoding = None, audioExtraction = None, segmenter = allExtracted D,
       verification = None, batchCommit = None, analyzers = None,
       analysis = failingFor bad \<rparr>"

text \<open>
  A run in which nothing fails, the downloaded file lasts \<open>D\<close> seconds and its standardized
  copy \<open>D'\<close> seconds.
\<close>

definition reencodedRun :: "real \<Rightarrow> real \<Rightarrow> run_env" where
  "reencodedRun D D' = (smoothRun D [])\<lparr>segmenter := allExtracted D'\<rparr>"

definition uploadedVideo :: video_doc where
  "uploadedVideo =
     \<lparr> vid_videoId = ''v'', vid_userId = ''u'', vid_name = ''clip'', vid_fileName = ''clip.mov'',
       vid_fileSize = 2048, vid_uploadSessionId = ''s'', vid_status = ''uploaded'',
       vid_storageLocation = ''videos/u/v.mov'', vid_analysisTriggered = True,
       vid_analysisProgress = None, vid_currentStep = None, vid_stepDetails = False,
       vid_segmentCount = None, vid_duration = None, vid_processingMetadata = None,
       vid_analysisError = None \<rparr>"

text \<open>The segments of a 12-second and of a 47-second video of user \<open>u\<close>.\<close>

definition threeSegments :: "VideoSegment list" where
  "threeSegments = map (segmentAt ''v'' ''u'' 12) [0..<3]"

definition tenSegments :: "VideoSegment list" where
  "tenSegments = map (segmentAt ''v'' ''u'' 47) [0..<10]"

section \<open>Properties of the progress reports\<close>

lemma updateChunkStatus_disjoint:
  assumes "set cc \<inter> set cf = {}" and "updateChunkStatus st i (cc, cf) = (cc', cf')"
  shows "set cc' \<inter> set cf' = {}"
  using assms by (auto simp: updateChunkStatus_def split: if_splits)

lemma updateChunkStatus_idem:
  "updateChunkStatus st i (updateChunkStatus st i cs) = updateChunkStatus st i cs"
  by (cases cs) (auto simp: updateChunkStatus_def)

lemma reportedSession_disjoint:
  assumes "disjointSets s"
  shows "disjointSets (reportedSession st i s)"
proof -
  obtain cc cf where u: "updateChunkStatus st i (sess_chunksCompleted s, sess_chunksFailed s)
      = (cc, cf)"
    by (cases "updateChunkStatus st i (sess_chunksCompleted s, sess_chunksFailed s)")
  from assms have "set (sess_chunksCompleted s) \<inter> set (sess_chunksFailed s) = {}"
    by (simp add: disjointSets_def)
  from updateChunkStatus_disjoint [OF this u] have "set cc \<inter> set cf = {}" .
  with u show ?thesis
    by (simp add: reportedSession_def disjointSets_def Let_def)
qed

lemma reportedSession_idem:
  "reportedSession st i (reportedSession st i s) = reportedSession st i s"
proof -
  obtain cc cf where u: "updateChunkStatus st i (sess_chunksCompleted s, sess_chunksFailed s)
      = (cc, cf)"
    by (cases "updateChunkStatus st i (sess_chunksCompleted s, sess_chunksFailed s)")
  from updateChunkStatus_idem [of st i "(sess_chunksCompleted s, sess_chunksFailed s)"] u
  have u2: "updateChunkStatus st i (cc, cf) = (cc, cf)" by simp
  from u u2 show ?thesis
    by (simp add: reportedSession_def Let_def split: option.splits)
qed

lemma reportedSession_owner [simp]: "sess_userId (reportedSession st i s) = sess_userId s"
  by (simp add: reportedSession_def Let_def split: prod.splits)

lemma progress_POST_cases:
  "snd (progress_POST au body db) = db \<or>
   (\<exists>sd i. db (pb_sessionId body) = Some sd \<and>
      snd (progress_POST au body db) =
        db(pb_sessionId body \<mapsto> reportedSession (pb_status body) i sd))"
  by (auto simp: progress_POST_def Let_def split: auth.splits option.splits)

lemma progress_POST_keeps_disjoint:
  assumes "db sid = Some s" and "disjointSets s"
  shows "\<exists>s'. snd (progress_POST au body db) sid = Some s' \<and> disjointSets s'"
proof -
  from progress_POST_cases [of au body db]
  consider (same) "snd (progress_POST au body db) = db"
    | (upd) sd i where "db (pb_sessionId body) = Some sd"
        "snd (progress_POST au body db) =
           db(pb_sessionId body \<mapsto> reportedSession (pb_status body) i sd)"
    by blast
  then show ?thesis
  proof cases
    case same
    with assms show ?thesis by simp
  next
    case upd
    show ?thesis
    proof (cases "sid = pb_sessionId body")
      case True
      with upd(1) assms(1) have "sd = s" by simp
      with assms(2) have "disjointSets (reportedSession (pb_status body) i sd)"
        by (simp add: reportedSession_disjoint)
      with True upd(2) show ?thesis by simp
    next
      case False
      with upd(2) assms show ?thesis by simp
    qed
  qed
qed

lemma reportAll_keeps_disjoint:
  "db sid = Some s \<Longrightarrow> disjointSets s \<Longrightarrow>
   \<exists>s'. reportAll rs db sid = Some s' \<and> disjointSets s'"
proof (induction rs arbitrary: db s)
  case Nil
  then show ?case by auto
next
  case (Cons r rs)
  obtain au body where r: "r = (au, body)" by (cases r)
  from progress_POST_keeps_disjoint [of db sid s au body] Cons.prems
  obtain s1 where s1: "snd (progress_POST au body db) sid = Some s1" "disjointSets s1"
    by blast
  from Cons.IH [of "snd (progress_POST au body db)" s1] s1 show ?case by (simp add: r)
qed

lemma progress_POST_idem:
  "progress_POST au body (snd (progress_POST au body db)) = progress_POST au body db"
  by (simp add: progress_POST_def Let_def reportedSession_idem
      split: auth.splits option.splits)

text \<open>
  C7. From a session whose completed and failed arrays are empty, any sequence of progress
  reports (any caller, any session id, any index, any status, in any order and with
  repetitions) leaves the session with disjoint completed and failed sets; and sending a
  report a second time changes neither the answer nor the stored sessions, hence not the sets.
\<close>

theorem progress_reports_disjoint_idempotent:
  assumes "db sid = Some s"
    and "sess_chunksCompleted s = []" and "sess_chunksFailed s = []"
  shows "(\<exists>s'. reportAll rs db sid = Some s' \<and>
           set (sess_chunksCompleted s') \<inter> set (sess_chunksFailed s') = {}) \<and>
         progress_POST au body (snd (progress_POST au body (reportAll rs db)))
           = progress_POST au body (reportAll rs db)"
proof
  from assms(2,3) have "disjointSets s" by (simp add: disjointSets_def)
  from reportAll_keeps_disjoint [of db sid s rs] assms(1) this
  show "\<exists>s'. reportAll rs db sid = Some s' \<and>
           set (sess_chunksCompleted s') \<inter> set (sess_chunksFailed s') = {}"
    by (simp add: disjointSets_def)
  show "progress_POST au body (snd (progress_POST au body (reportAll rs db)))
           = progress_POST au body (reportAll rs db)"
    by (rule progress_POST_idem)
qed

theorem progress_reports_disjoint_idempotent_witness:
  "[''s'' \<mapsto> exampleSession] ''s'' = Some exampleSession \<and>
   sess_chunksCompleted exampleSession = [] \<and> sess_chunksFailed exampleSession = [] \<and>
   (\<exists>s'. reportAll [exampleReport 0 ''completed'', exampleReport 1 ''failed'',
                    exampleReport 0 ''failed'', exampleReport 0 ''failed'']
               [''s'' \<mapsto> exampleSession] ''s'' = Some s' \<and>
         set (sess_chunksCompleted s') \<inter> set (sess_chunksFailed s') = {}) \<and>
   progress_POST (Verified ''u'') \<lparr> pb_sessionId = ''s'', pb_chunkIndex = Some 1,
                                   pb_status = ''completed'' \<rparr>
     (snd (progress_POST (Verified ''u'') \<lparr> pb_sessionId = ''s'', pb_chunkIndex = Some 1,
                                            pb_status = ''completed'' \<rparr>
        (reportAll [exampleReport 0 ''completed'', exampleReport 1 ''failed'',
                    exampleReport 0 ''failed'', exampleReport 0 ''failed'']
           [''s'' \<mapsto> exampleSession])))
   = progress_POST (Verified ''u'') \<lparr> pb_sessionId = ''s'', pb_chunkIndex = Some 1,
                                     pb_status = ''completed'' \<rparr>
       (reportAll [exampleReport 0 ''completed'', exampleReport 1 ''failed'',
                   exampleReport 0 ''failed'', exampleReport 0 ''failed'']
          [''s'' \<mapsto> exampleSession])"
proof -
  have h1: "[''s'' \<mapsto> exampleSession] ''s'' = Some exampleSession" by simp
  have h2: "sess_chunksCompleted exampleSession = []" by (simp add: exampleSession_def)
  have h3: "sess_chunksFailed exampleSession = []" by (simp add: exampleSession_def)
  from progress_reports_disjoint_idempotent
         [where db = "[''s'' \<mapsto> exampleSession]" and sid = "''s''" and s = exampleSession]
       h1 h2 h3
  show ?thesis by blast
qed

section \<open>Properties of finalize\<close>

lemma verifyChunks_answers:
  assumes "\<forall>i \<in> set is. faults b (generateChunkPath u sid i) = None"
  shows "verifyChunks b u sid is (cp, mi) =
     Inr (cp @ map (generateChunkPath u sid) (filter (reportedPresent b u sid) is),
          mi @ filter (\<lambda>i. \<not> reportedPresent b u sid i) is)"
  using assms
  by (induction "is" arbitrary: cp mi)
     (auto simp: reportedPresent_def file_exists_def Let_def)

lemma finalize_compose_at_most_once:
  "composeCalls (snd (finalize_POST env au sid w)) = composeCalls w \<or>
   (\<exists>c. composeCalls (snd (finalize_POST env au sid w)) = composeCalls w @ [c])"
  by (auto simp: finalize_POST_def Let_def
      split: auth.splits option.splits sum.splits prod.splits)

lemma finalize_missing:
  assumes "sessions w sid = Some sd" and "sid \<noteq> []"
    and "\<forall>i < sess_totalChunks sd.
           faults (store w) (generateChunkPath (sess_userId sd) sid i) = None"
    and "storeMissing (store w) (sess_userId sd) sid (sess_totalChunks sd) \<noteq> []"
  shows "finalize_POST env (Verified (sess_userId sd)) sid w =
     (Failure 400 (incompleteMessage (sess_totalChunks sd)
         (storeMissing (store w) (sess_userId sd) sid (sess_totalChunks sd))),
      w\<lparr>sessions := (sessions w)(sid \<mapsto> sd\<lparr>sess_status := ''assembling''\<rparr>)\<rparr>)"
proof -
  from assms(3) have "\<forall>i \<in> set [0..<sess_totalChunks sd].
      faults (store w) (generateChunkPath (sess_userId sd) sid i) = None" by simp
  from verifyChunks_answers [OF this, of "[]" "[]"] assms(1,2,4) show ?thesis
    by (simp add: finalize_POST_def Let_def storeMissing_def)
qed

lemma finalize_all_present_compose:
  assumes "sessions w sid = Some sd" and "sid \<noteq> []"
    and "\<forall>i < sess_totalChunks sd.
           faults (store w) (generateChunkPath (sess_userId sd) sid i) = None"
    and "storeMissing (store w) (sess_userId sd) sid (sess_totalChunks sd) = []"
  shows "composeCalls (snd (finalize_POST env (Verified (sess_userId sd)) sid w)) =
           composeCalls w @
             [(map (generateChunkPath (sess_userId sd) sid) [0..<sess_totalChunks sd],
               generateVideoPath (sess_userId sd) (fe_uuid env) (fileExtension (sess_fileName sd)))]"
proof -
  from assms(3) have a: "\<forall>i \<in> set [0..<sess_totalChunks sd].
      faults (store w) (generateChunkPath (sess_userId sd) sid i) = None" by simp
  from assms(4) have f: "filter (reportedPresent (store w) (sess_userId sd) sid) [0..<sess_totalChunks sd]
     = [0..<sess_totalChunks sd]"
    by (simp add: storeMissing_def filter_empty_conv)
  from verifyChunks_answers [OF a, of "[]" "[]"] f assms(1,2,4) show ?thesis
    by (simp add: finalize_POST_def Let_def storeMissing_def split: sum.splits)
qed

lemma finalize_all_present_answer:
  assumes "sessions w sid = Some sd" and "sid \<noteq> []"
    and "\<forall>i < sess_totalChunks sd.
           faults (store w) (generateChunkPath (sess_userId sd) sid i) = None"
    and "storeMissing (store w) (sess_userId sd) sid (sess_totalChunks sd) = []"
    and "composeStep env (store w)
             (map (generateChunkPath (sess_userId sd) sid) [0..<sess_totalChunks sd])
             (generateVideoPath (sess_userId sd) (fe_uuid env) (fileExtension (sess_fileName sd)))
            = Inr b'"
  shows "\<exists>d. fst (finalize_POST env (Verified (sess_userId sd)) sid w) = Success d \<and>
             fd_videoId d = fe_uuid env"
proof -
  from assms(3) have a: "\<forall>i \<in> set [0..<sess_totalChunks sd].
      faults (store w) (generateChunkPath (sess_userId sd) sid i) = None" by simp
  from assms(4) have f: "filter (reportedPresent (store w) (sess_userId sd) sid) [0..<sess_totalChunks sd]
     = [0..<sess_totalChunks sd]"
    by (simp add: storeMissing_def filter_empty_conv)
  from verifyChunks_answers [OF a, of "[]" "[]"] f assms(1,2,4,5) show ?thesis
    by (simp add: finalize_POST_def Let_def storeMissing_def)
qed

lemma finalize_ignores_status:
  "fst (finalize_POST env au sid (w\<lparr>sessions := (sessions w)(sid \<mapsto> sd\<lparr>sess_status := st, sess_videoId := v\<rparr>)\<rparr>))
   = fst (finalize_POST env au sid (w\<lparr>sessions := (sessions w)(sid \<mapsto> sd)\<rparr>))"
  by (simp add: finalize_POST_def Let_def split: auth.splits sum.splits prod.splits)

text \<open>
  C1, as the code has it. Finalize never reads the stored status or video id of the session.
  On a session that is already \<^verbatim>\<open>completed\<close> (owner calling, every existence check
  answering) it verifies the chunks again. If every chunk object is still reported present,
  it calls compose once more, on all chunk paths and towards a path built from the newly
  generated id, and when the compose step succeeds it answers with that new id. If some
  chunk is reported absent, as after the background cleanup, it answers 400 with the missing
  indices, calls no compose and leaves the session \<^verbatim>\<open>assembling\<close>. The answer is the same
  whatever status and video id the session document holds, and one call attempts compose at
  most once.
\<close>

theorem refinalize_completed_session:
  assumes "sessions w sid = Some sd" and "sess_status sd = ''completed''" and "sid \<noteq> []"
    and "\<forall>i < sess_totalChunks sd.
           faults (store w) (generateChunkPath (sess_userId sd) sid i) = None"
  shows
   "(storeMissing (store w) (sess_userId sd) sid (sess_totalChunks sd) = [] \<longrightarrow>
       composeCalls (snd (finalize_POST env (Verified (sess_userId sd)) sid w)) =
         composeCalls w @
           [(map (generateChunkPath (sess_userId sd) sid) [0..<sess_totalChunks sd],
             generateVideoPath (sess_userId sd) (fe_uuid env) (fileExtension (sess_fileName sd)))] \<and>
       (\<forall>b'. composeStep env (store w)
               (map (generateChunkPath (sess_userId sd) sid) [0..<sess_totalChunks sd])
               (generateVideoPath (sess_userId sd) (fe_uuid env)
                  (fileExtension (sess_fileName sd))) = Inr b' \<longrightarrow>
             (\<exists>d. fst (finalize_POST env (Verified (sess_userId sd)) sid w) = Success d \<and>
                  fd_videoId d = fe_uuid env))) \<and>
    (storeMissing (store w) (sess_userId sd) sid (sess_totalChunks sd) \<noteq> [] \<longrightarrow>
       finalize_POST env (Verified (sess_userId sd)) sid w =
         (Failure 400 (incompleteMessage (sess_totalChunks sd)
            (storeMissing (store w) (sess_userId sd) sid (sess_totalChunks sd))),
          w\<lparr>sessions := (sessions w)(sid \<mapsto> sd\<lparr>sess_status := ''assembling''\<rparr>)\<rparr>)) \<and>
    fst (finalize_POST env (Verified (sess_userId sd)) sid
           (w\<lparr>sessions := (sessions w)(sid \<mapsto> sd\<lparr>sess_status := st, sess_videoId := v\<rparr>)\<rparr>))
      = fst (finalize_POST env (Verified (sess_userId sd)) sid w) \<and>
    length (composeCalls (snd (finalize_POST env (Verified (sess_userId sd)) sid w)))
      \<le> Suc (length (composeCalls w))"
proof (intro conjI impI allI)
  assume m: "storeMissing (store w) (sess_userId sd) sid (sess_totalChunks sd) = []"
  from finalize_all_present_compose [OF assms(1,3,4) m]
  show "composeCalls (snd (finalize_POST env (Verified (sess_userId sd)) sid w)) =
         composeCalls w @
           [(map (generateChunkPath (sess_userId sd) sid) [0..<sess_totalChunks sd],
             generateVideoPath (sess_userId sd) (fe_uuid env) (fileExtension (sess_fileName sd)))]" .
  fix b'
  assume "composeStep env (store w)
               (map (generateChunkPath (sess_userId sd) sid) [0..<sess_totalChunks sd])
               (generateVideoPath (sess_userId sd) (fe_uuid env)
                  (fileExtension (sess_fileName sd))) = Inr b'"
  from finalize_all_present_answer [OF assms(1,3,4) m this]
  show "\<exists>d. fst (finalize_POST env (Verified (sess_userId sd)) sid w) = Success d \<and>
                  fd_videoId d = fe_uuid env" .
next
  assume "storeMissing (store w) (sess_userId sd) sid (sess_totalChunks sd) \<noteq> []"
  from finalize_missing [OF assms(1,3,4) this]
  show "finalize_POST env (Verified (sess_userId sd)) sid w =
         (Failure 400 (incompleteMessage (sess_totalChunks sd)
            (storeMissing (store w) (sess_userId sd) sid (sess_totalChunks sd))),
          w\<lparr>sessions := (sessions w)(sid \<mapsto> sd\<lparr>sess_status := ''assembling''\<rparr>)\<rparr>)" .
next
  from assms(1) have "(sessions w)(sid \<mapsto> sd) = sessions w" by (rule map_upd_triv)
  then have "w\<lparr>sessions := (sessions w)(sid \<mapsto> sd)\<rparr> = w" by simp
  with finalize_ignores_status [where env=env and au="Verified (sess_userId sd)" and sid=sid and w=w and sd=sd and st=st and v=v]
  show "fst (finalize_POST env (Verified (sess_userId sd)) sid
           (w\<lparr>sessions := (sessions w)(sid \<mapsto> sd\<lparr>sess_status := st, sess_videoId := v\<rparr>)\<rparr>))
      = fst (finalize_POST env (Verified (sess_userId sd)) sid w)" by simp
next
  from finalize_compose_at_most_once [of env "Verified (sess_userId sd)" sid w]
  show "length (composeCalls (snd (finalize_POST env (Verified (sess_userId sd)) sid w)))
      \<le> Suc (length (composeCalls w))" by auto
qed

theorem refinalize_completed_session_witness:
  "sessions finalizedOnce ''s'' = Some completedSession \<and>
   sess_status completedSession = ''completed'' \<and>
   composeCalls (snd (finalize_POST secondCall (Verified ''u'') ''s'' finalizedOnce)) =
     composeCalls finalizedOnce @
       [([''uploads/u/s/chunk_000'', ''uploads/u/s/chunk_001''], ''videos/u/v2.mov'')] \<and>
   (\<exists>d. fst (finalize_POST secondCall (Verified ''u'') ''s'' finalizedOnce) = Success d \<and>
        fd_videoId d = ''v2'') \<and>
   fst (finalize_POST secondCall (Verified ''u'') ''s'' (cleanupChunks finalizedOnce)) =
     Failure 400 ''Upload incomplete: 0/2 chunks found in Cloud Storage. Missing chunks: 0, 1''"
proof -
  let ?w = finalizedOnce and ?c = "cleanupChunks finalizedOnce"
  have s: "sessions ?w ''s'' = Some completedSession" by code_simp
  have s': "sessions ?c ''s'' = Some completedSession" by code_simp
  have st: "sess_status completedSession = ''completed''" by code_simp
  have u: "sess_userId completedSession = ''u''" and n: "sess_totalChunks completedSession = 2"
    and fn: "sess_fileName completedSession = ''clip.mov''"
    by (simp_all add: completedSession_def exampleSession_def)
  have p0: "generateChunkPath ''u'' ''s'' 0 = ''uploads/u/s/chunk_000''" by code_simp
  have p1: "generateChunkPath ''u'' ''s'' (Suc 0) = ''uploads/u/s/chunk_001''" by code_simp
  have f0: "faults (store ?w) ''uploads/u/s/chunk_000'' = None" by code_simp
  have f1: "faults (store ?w) ''uploads/u/s/chunk_001'' = None" by code_simp
  have g0: "faults (store ?c) ''uploads/u/s/chunk_000'' = None" by code_simp
  have g1: "faults (store ?c) ''uploads/u/s/chunk_001'' = None" by code_simp
  have fw: "\<forall>i < sess_totalChunks completedSession.
      faults (store ?w) (generateChunkPath (sess_userId completedSession) ''s'' i) = None"
    using f0 f1 p0 p1 by (simp add: u n less_Suc_eq numeral_2_eq_2)
  have fc: "\<forall>i < sess_totalChunks completedSession.
      faults (store ?c) (generateChunkPath (sess_userId completedSession) ''s'' i) = None"
    using g0 g1 p0 p1 by (simp add: u n less_Suc_eq numeral_2_eq_2)
  have mw: "storeMissing (store ?w) ''u'' ''s'' 2 = []" by code_simp
  have mc: "storeMissing (store ?c) ''u'' ''s'' 2 = [0, Suc 0]" by code_simp
  have dest: "generateVideoPath ''u'' ''v2'' (fileExtension ''clip.mov'') = ''videos/u/v2.mov''"
    by code_simp
  have cs: "\<exists>b'. composeStep secondCall (store ?w) [''uploads/u/s/chunk_000'', ''uploads/u/s/chunk_001'']
     ''videos/u/v2.mov'' = Inr b'"
    by (simp add: composeStep_def secondCall_def file_exists_def combined_def Let_def
        finalizedOnce_def finalize_POST_def worldWith_def exampleSession_def bothChunks_def
        p0 p1 firstCall_def numeral_2_eq_2 upt_rec)
  have im: "incompleteMessage 2 [0, Suc 0] =
     ''Upload incomplete: 0/2 chunks found in Cloud Storage. Missing chunks: 0, 1''" by code_simp
  have uu: "fe_uuid secondCall = ''v2''" by (simp add: secondCall_def)
  from refinalize_completed_session [OF s st _ fw, of secondCall] mw cs
  have A: "composeCalls (snd (finalize_POST secondCall (Verified ''u'') ''s'' ?w)) =
     composeCalls ?w @ [([''uploads/u/s/chunk_000'', ''uploads/u/s/chunk_001''], ''videos/u/v2.mov'')]"
    and B: "\<exists>d. fst (finalize_POST secondCall (Verified ''u'') ''s'' ?w) = Success d \<and> fd_videoId d = ''v2''"
    by (simp_all add: u n fn dest p0 p1 numeral_2_eq_2 upt_rec uu)
  from refinalize_completed_session [OF s' st _ fc, of secondCall] mc
  have C: "fst (finalize_POST secondCall (Verified ''u'') ''s'' ?c) =
     Failure 400 ''Upload incomplete: 0/2 chunks found in Cloud Storage. Missing chunks: 0, 1''"
    by (simp add: u n im)
  from s st A B C show ?thesis by simp
qed

text \<open>
  C1, as stated, fails: after a first, successful finalize has left session \<open>s\<close>
  \<^verbatim>\<open>completed\<close> with video id \<open>v1\<close>, and before the background cleanup has removed the
  chunks, a second finalize answers with a different video id \<open>v2\<close> and has called
  compose a second time.
\<close>

theorem refinalize_returns_new_id_and_composes_again:
  "sessions finalizedOnce ''s'' =
     Some (exampleSession\<lparr>sess_status := ''completed'', sess_videoId := Some ''v1''\<rparr>) \<and>
   fst (finalize_POST secondCall (Verified ''u'') ''s'' finalizedOnce) =
     Success \<lparr> fd_videoId = ''v2'', fd_status = ''uploaded'',
               fd_storageLocation = ''videos/u/v2.mov'', fd_fileName = ''clip.mov'',
               fd_fileSize = 2048, fd_analysisTriggered = True \<rparr> \<and>
   composeCalls (snd (finalize_POST secondCall (Verified ''u'') ''s'' finalizedOnce)) =
     [([''uploads/u/s/chunk_000'', ''uploads/u/s/chunk_001''], ''videos/u/v1.mov''),
      ([''uploads/u/s/chunk_000'', ''uploads/u/s/chunk_001''], ''videos/u/v2.mov'')]"
  by code_simp

text \<open>
  C2, evaluated where the code departs from it. A two-chunk session whose second chunk is
  absent from the store: finalize answers 400 naming chunk 1 and calls no compose, but the
  session is left \<^verbatim>\<open>assembling\<close>, not \<^verbatim>\<open>failed\<close>. The early return of the
  missing-chunk branch skips the status write that the compose-failure branch performs.
\<close>

theorem finalize_missing_chunk_leaves_assembling:
  "fst (finalize_POST firstCall (Verified ''u'') ''s'' (worldWith exampleSession firstChunkOnly)) =
     Failure 400 ''Upload incomplete: 1/2 chunks found in Cloud Storage. Missing chunks: 1'' \<and>
   composeCalls (snd (finalize_POST firstCall (Verified ''u'') ''s''
       (worldWith exampleSession firstChunkOnly))) = [] \<and>
   sessions (snd (finalize_POST firstCall (Verified ''u'') ''s''
       (worldWith exampleSession firstChunkOnly))) ''s'' =
     Some (exampleSession\<lparr>sess_status := ''assembling''\<rparr>) \<and>
   sess_status (exampleSession\<lparr>sess_status := ''assembling''\<rparr>) \<noteq> ''failed''"
  by code_simp

text \<open>The sibling branch: a rejected compose does leave the session \<^verbatim>\<open>failed\<close>.\<close>

lemma finalize_compose_failure_marks_failed:
  "sessions (snd (finalize_POST \<lparr> fe_uuid = ''v1'', fe_combine = Some ''quota exceeded'' \<rparr>
       (Verified ''u'') ''s'' (worldWith exampleSession bothChunks))) ''s'' =
     Some (exampleSession\<lparr>sess_status := ''failed'',
             sess_error := Some ''Failed to combine chunks: quota exceeded''\<rparr>)"
  by code_simp

section \<open>Properties of resume\<close>

lemma checkChunks_eq:
  "checkChunks b u sid is (ex, mi) =
     (ex @ filter (reportedPresent b u sid) is,
      mi @ filter (\<lambda>i. \<not> reportedPresent b u sid i) is)"
  by (induction "is" arbitrary: ex mi)
     (auto simp: reportedPresent_def split: sum.splits bool.splits)

lemma signMissing_ok:
  assumes "\<forall>i \<in> set is. signedUrl b u sid ex i \<noteq> None"
  shows "signMissing b u sid ex is m0 =
           Inr (\<lambda>i. if i \<in> set is then signedUrl b u sid ex i else m0 i)"
  using assms
proof (induction "is" arbitrary: m0)
  case Nil
  then show ?case by simp
next
  case (Cons i rest)
  from Cons.prems obtain url where s: "signer b (generateChunkPath u sid i) ex = Inr url"
    by (auto simp: signedUrl_def split: sum.splits)
  then have su: "signedUrl b u sid ex i = Some url" by (simp add: signedUrl_def)
  have "(\<lambda>j. if j \<in> set rest then signedUrl b u sid ex j else (m0(i \<mapsto> url)) j)
      = (\<lambda>j. if j \<in> set (i # rest) then signedUrl b u sid ex j else m0 j)"
    by (rule ext) (simp add: su)
  with Cons s show ?case by simp
qed

lemma signMissing_rejected:
  assumes "\<exists>i \<in> set is. signedUrl b u sid ex i = None"
  shows "isl (signMissing b u sid ex is m0)"
  using assms
proof (induction "is" arbitrary: m0)
  case Nil
  then show ?case by simp
next
  case (Cons i rest)
  show ?case
  proof (cases "signer b (generateChunkPath u sid i) ex")
    case (Inl err)
    then show ?thesis by simp
  next
    case (Inr url)
    then have "signedUrl b u sid ex i \<noteq> None" by (simp add: signedUrl_def)
    with Cons.prems have "\<exists>j \<in> set rest. signedUrl b u sid ex j = None" by auto
    from Cons.IH [OF this] Inr show ?thesis by simp
  qed
qed

lemma storeMissing_count:
  "length (storeMissing b u sid n) = n - length (storeExisting b u sid n)"
proof -
  have "length (storeExisting b u sid n) + length (storeMissing b u sid n) = length [0..<n]"
    unfolding storeExisting_def storeMissing_def by (rule sum_length_filter_compl)
  then show ?thesis by simp
qed

lemma storeMissing_distinct: "distinct (storeMissing b u sid n)"
  by (simp add: storeMissing_def)

lemma resume_answer:
  assumes "db sid = Some sd" and "sid \<noteq> []" and "\<not> now > sess_expiresAt sd"
    and "\<forall>i \<in> set (storeMissing b (sess_userId sd) sid (sess_totalChunks sd)).
           signedUrl b (sess_userId sd) sid (now + SIGNED_URL_EXPIRY_HOURS * 60 * 60 * 1000) i
             \<noteq> None"
  shows "resume_POST (Verified (sess_userId sd)) sid now b db =
     (Success
        \<lparr> rd_uploadSessionId = sid,
          rd_totalChunks = sess_totalChunks sd,
          rd_existingChunks = storeExisting b (sess_userId sd) sid (sess_totalChunks sd),
          rd_missingChunks = storeMissing b (sess_userId sd) sid (sess_totalChunks sd),
          rd_chunkUrls = (\<lambda>i. if i \<in> set (storeMissing b (sess_userId sd) sid (sess_totalChunks sd))
                              then signedUrl b (sess_userId sd) sid
                                     (now + SIGNED_URL_EXPIRY_HOURS * 60 * 60 * 1000) i
                              else None),
          rd_progress = resumeProgress
             (length (storeExisting b (sess_userId sd) sid (sess_totalChunks sd)))
             (sess_totalChunks sd),
          rd_status =
            (if length (storeExisting b (sess_userId sd) sid (sess_totalChunks sd))
                  = sess_totalChunks sd
             then ''ready_to_finalize'' else ''resuming'') \<rparr>,
      db(sid \<mapsto> sd\<lparr>sess_completedChunks :=
                       storeExisting b (sess_userId sd) sid (sess_totalChunks sd)\<rparr>))"
proof -
  have c: "checkChunks b (sess_userId sd) sid [0..<sess_totalChunks sd] ([], []) =
      (storeExisting b (sess_userId sd) sid (sess_totalChunks sd),
       storeMissing b (sess_userId sd) sid (sess_totalChunks sd))"
    by (simp add: checkChunks_eq storeExisting_def storeMissing_def)
  from signMissing_ok [OF assms(4), of Map.empty]
  have s: "signMissing b (sess_userId sd) sid (now + SIGNED_URL_EXPIRY_HOURS * 60 * 60 * 1000)
       (storeMissing b (sess_userId sd) sid (sess_totalChunks sd)) Map.empty =
     Inr (\<lambda>i. if i \<in> set (storeMissing b (sess_userId sd) sid (sess_totalChunks sd))
               then signedUrl b (sess_userId sd) sid
                      (now + SIGNED_URL_EXPIRY_HOURS * 60 * 60 * 1000) i
               else None)" .
  from assms(1,2,3) c s show ?thesis
    by (simp add: resume_POST_def Let_def)
qed

lemma resume_signing_rejected:
  assumes "db sid = Some sd" and "sid \<noteq> []" and "\<not> now > sess_expiresAt sd"
    and "\<exists>i \<in> set (storeMissing b (sess_userId sd) sid (sess_totalChunks sd)).
           signedUrl b (sess_userId sd) sid (now + SIGNED_URL_EXPIRY_HOURS * 60 * 60 * 1000) i
             = None"
  shows "resume_POST (Verified (sess_userId sd)) sid now b db =
           (Failure 500 ''Internal server error'', db)"
proof -
  have c: "checkChunks b (sess_userId sd) sid [0..<sess_totalChunks sd] ([], []) =
      (storeExisting b (sess_userId sd) sid (sess_totalChunks sd),
       storeMissing b (sess_userId sd) sid (sess_totalChunks sd))"
    by (simp add: checkChunks_eq storeExisting_def storeMissing_def)
  from signMissing_rejected [OF assms(4), of Map.empty]
  obtain err where s: "signMissing b (sess_userId sd) sid
       (now + SIGNED_URL_EXPIRY_HOURS * 60 * 60 * 1000)
       (storeMissing b (sess_userId sd) sid (sess_totalChunks sd)) Map.empty = Inl err"
    by (auto simp: isl_def)
  from assms(1,2,3) c s show ?thesis
    by (simp add: resume_POST_def Let_def)
qed

text \<open>
  C6, as the code has it. A session that has not expired is resumed by its owner; \<open>n\<close> is
  its number of chunks and \<open>k\<close> the number of indices whose existence check reports the
  object present. The indices to be signed are all the others, among them every index whose
  check is rejected.

  \<^item> When the store signs a URL for each of them, resume answers with the indices reported
    present as existing and the others as missing, and with one URL per missing index, the
    one the store signed, and none for another index: \<open>n - k\<close> URLs.
  \<^item> When the signing of one of them is rejected, resume answers 500 with no URL and leaves
    the session documents as they were.

  Either way the answer is the same whatever the completed and failed arrays and the progress
  stored on the session.
\<close>

theorem resume_recomputes_from_store_checks:
  assumes "db sid = Some sd" and "sid \<noteq> []" and "\<not> now > sess_expiresAt sd"
  shows "((\<forall>i \<in> set (storeMissing b (sess_userId sd) sid (sess_totalChunks sd)).
             signedUrl b (sess_userId sd) sid (now + SIGNED_URL_EXPIRY_HOURS * 60 * 60 * 1000) i
               \<noteq> None) \<longrightarrow>
          (\<exists>r. fst (resume_POST (Verified (sess_userId sd)) sid now b db) = Success r \<and>
             rd_existingChunks r = filter (reportedPresent b (sess_userId sd) sid) [0..<sess_totalChunks sd] \<and>
             rd_missingChunks r = filter (\<lambda>i. \<not> reportedPresent b (sess_userId sd) sid i) [0..<sess_totalChunks sd] \<and>
             dom (rd_chunkUrls r) = set (rd_missingChunks r) \<and>
             (\<forall>i \<in> set (rd_missingChunks r).
                rd_chunkUrls r i =
                  signedUrl b (sess_userId sd) sid (now + SIGNED_URL_EXPIRY_HOURS * 60 * 60 * 1000) i) \<and>
             card (dom (rd_chunkUrls r)) = sess_totalChunks sd - length (rd_existingChunks r) \<and>
             fst (resume_POST (Verified (sess_userId sd)) sid now b
                    (db(sid \<mapsto> sd\<lparr>sess_chunksCompleted := cc, sess_chunksFailed := cf,
                                    sess_completedChunks := cd, sess_progress := pr\<rparr>)))
               = Success r)) \<and>
         ((\<exists>i \<in> set (storeMissing b (sess_userId sd) sid (sess_totalChunks sd)).
             signedUrl b (sess_userId sd) sid (now + SIGNED_URL_EXPIRY_HOURS * 60 * 60 * 1000) i
               = None) \<longrightarrow>
          resume_POST (Verified (sess_userId sd)) sid now b db =
            (Failure 500 ''Internal server error'', db) \<and>
          fst (resume_POST (Verified (sess_userId sd)) sid now b
                 (db(sid \<mapsto> sd\<lparr>sess_chunksCompleted := cc, sess_chunksFailed := cf,
                                 sess_completedChunks := cd, sess_progress := pr\<rparr>)))
            = Failure 500 ''Internal server error'')"
proof (intro conjI impI)
  let ?sd' = "sd\<lparr>sess_chunksCompleted := cc, sess_chunksFailed := cf,
                  sess_completedChunks := cd, sess_progress := pr\<rparr>"
  let ?n = "sess_totalChunks sd" and ?u = "sess_userId sd"
  let ?e = "now + SIGNED_URL_EXPIRY_HOURS * 60 * 60 * 1000"
  have h1: "(db(sid \<mapsto> ?sd')) sid = Some ?sd'" by simp
  have h3: "\<not> now > sess_expiresAt ?sd'" using assms(3) by simp
  have su: "sess_userId ?sd' = ?u" and sn: "sess_totalChunks ?sd' = ?n" by simp_all
  {
    assume ok: "\<forall>i \<in> set (storeMissing b ?u sid ?n). signedUrl b ?u sid ?e i \<noteq> None"
    have A: "resume_POST (Verified ?u) sid now b db =
       (Success
          \<lparr> rd_uploadSessionId = sid, rd_totalChunks = ?n,
            rd_existingChunks = storeExisting b ?u sid ?n,
            rd_missingChunks = storeMissing b ?u sid ?n,
            rd_chunkUrls = (\<lambda>i. if i \<in> set (storeMissing b ?u sid ?n)
                                then signedUrl b ?u sid ?e i else None),
            rd_progress = resumeProgress (length (storeExisting b ?u sid ?n)) ?n,
            rd_status = (if length (storeExisting b ?u sid ?n) = ?n
                         then ''ready_to_finalize'' else ''resuming'') \<rparr>,
        db(sid \<mapsto> sd\<lparr>sess_completedChunks := storeExisting b ?u sid ?n\<rparr>))"
      using resume_answer [where db = db and sid = sid and sd = sd and now = now and b = b]
        assms ok by blast
    have h4: "\<forall>i \<in> set (storeMissing b (sess_userId ?sd') sid (sess_totalChunks ?sd')).
             signedUrl b (sess_userId ?sd') sid ?e i \<noteq> None"
      using ok by simp
    have B: "resume_POST (Verified ?u) sid now b (db(sid \<mapsto> ?sd')) =
       (Success
          \<lparr> rd_uploadSessionId = sid, rd_totalChunks = ?n,
            rd_existingChunks = storeExisting b ?u sid ?n,
            rd_missingChunks = storeMissing b ?u sid ?n,
            rd_chunkUrls = (\<lambda>i. if i \<in> set (storeMissing b ?u sid ?n)
                                then signedUrl b ?u sid ?e i else None),
            rd_progress = resumeProgress (length (storeExisting b ?u sid ?n)) ?n,
            rd_status = (if length (storeExisting b ?u sid ?n) = ?n
                         then ''ready_to_finalize'' else ''resuming'') \<rparr>,
        (db(sid \<mapsto> ?sd'))(sid \<mapsto> ?sd'\<lparr>sess_completedChunks := storeExisting b ?u sid ?n\<rparr>))"
      using resume_answer [where db = "db(sid \<mapsto> ?sd')" and sid = sid and sd = ?sd'
                             and now = now and b = b, OF h1 assms(2) h3 h4]
      by (simp only: su sn)
    have d: "dom (\<lambda>i. if i \<in> set (storeMissing b ?u sid ?n)
                       then signedUrl b ?u sid ?e i else None)
         = set (storeMissing b ?u sid ?n)"
      using ok by (auto simp: dom_def)
    have k: "card (set (storeMissing b ?u sid ?n)) = ?n - length (storeExisting b ?u sid ?n)"
      using storeMissing_count [of b ?u sid ?n] storeMissing_distinct [of b ?u sid ?n]
      by (simp add: distinct_card)
    show "\<exists>r. fst (resume_POST (Verified ?u) sid now b db) = Success r \<and>
             rd_existingChunks r = filter (reportedPresent b ?u sid) [0..<?n] \<and>
             rd_missingChunks r = filter (\<lambda>i. \<not> reportedPresent b ?u sid i) [0..<?n] \<and>
             dom (rd_chunkUrls r) = set (rd_missingChunks r) \<and>
             (\<forall>i \<in> set (rd_missingChunks r). rd_chunkUrls r i = signedUrl b ?u sid ?e i) \<and>
             card (dom (rd_chunkUrls r)) = ?n - length (rd_existingChunks r) \<and>
             fst (resume_POST (Verified ?u) sid now b (db(sid \<mapsto> ?sd'))) = Success r"
      using A B d k by (simp add: storeExisting_def storeMissing_def)
  }
  {
    assume no: "\<exists>i \<in> set (storeMissing b ?u sid ?n). signedUrl b ?u sid ?e i = None"
    show "resume_POST (Verified ?u) sid now b db = (Failure 500 ''Internal server error'', db)"
      using resume_signing_rejected [where db = db and sid = sid and sd = sd and now = now
                                       and b = b] assms no by blast
    have h4: "\<exists>i \<in> set (storeMissing b (sess_userId ?sd') sid (sess_totalChunks ?sd')).
             signedUrl b (sess_userId ?sd') sid ?e i = None"
      using no by simp
    show "fst (resume_POST (Verified ?u) sid now b (db(sid \<mapsto> ?sd')))
            = Failure 500 ''Internal server error''"
      using resume_signing_rejected [where db = "db(sid \<mapsto> ?sd')" and sid = sid and sd = ?sd'
                                       and now = now and b = b, OF h1 assms(2) h3 h4]
      by (simp only: su fst_conv)
  }
qed

theorem resume_recomputes_from_store_checks_witness:
  "[''s'' \<mapsto> exampleSession] ''s'' = Some exampleSession \<and> ''s'' \<noteq> [] \<and>
   \<not> 5 > sess_expiresAt exampleSession \<and>
   storeMissing firstChunkOnly ''u'' ''s'' 2 = [1] \<and>
   signedUrl firstChunkOnly ''u'' ''s'' (5 + SIGNED_URL_EXPIRY_HOURS * 60 * 60 * 1000) 1 =
     Some ''https://signed.example/uploads/u/s/chunk_001'' \<and>
   (\<exists>r. fst (resume_POST (Verified ''u'') ''s'' 5 firstChunkOnly [''s'' \<mapsto> exampleSession]) = Success r \<and>
        rd_existingChunks r = [0] \<and> rd_missingChunks r = [1] \<and>
        rd_chunkUrls r 1 = Some ''https://signed.example/uploads/u/s/chunk_001'' \<and>
        card (dom (rd_chunkUrls r)) = 1 \<and>
        fst (resume_POST (Verified ''u'') ''s'' 5 firstChunkOnly [''s'' \<mapsto> staleSession]) = Success r) \<and>
   storeMissing signingRejected ''u'' ''s'' 2 = [1] \<and>
   signedUrl signingRejected ''u'' ''s'' (5 + SIGNED_URL_EXPIRY_HOURS * 60 * 60 * 1000) 1 = None \<and>
   fst (resume_POST (Verified ''u'') ''s'' 5 signingRejected [''s'' \<mapsto> exampleSession]) =
     Failure 500 ''Internal server error'' \<and>
   snd (resume_POST (Verified ''u'') ''s'' 5 signingRejected [''s'' \<mapsto> exampleSession]) ''s'' =
     Some exampleSession \<and>
   fst (resume_POST (Verified ''u'') ''s'' 5 signingRejected [''s'' \<mapsto> staleSession]) =
     Failure 500 ''Internal server error''"
proof -
  let ?e = "5 + SIGNED_URL_EXPIRY_HOURS * 60 * 60 * 1000"
  have h1: "[''s'' \<mapsto> exampleSession] ''s'' = Some exampleSession" by simp
  have h2: "''s'' \<noteq> []" by simp
  have h3: "\<not> 5 > sess_expiresAt exampleSession" by (simp add: exampleSession_def)
  have u: "sess_userId exampleSession = ''u''" and n: "sess_totalChunks exampleSession = 2"
    by (simp_all add: exampleSession_def)
  have ex: "filter (reportedPresent firstChunkOnly ''u'' ''s'') [0..<2] = [0]" by code_simp
  have mi: "filter (\<lambda>i. \<not> reportedPresent firstChunkOnly ''u'' ''s'' i) [0..<2] = [1]"
    by code_simp
  have m1: "storeMissing firstChunkOnly ''u'' ''s'' 2 = [1]" by code_simp
  have m2: "storeMissing signingRejected ''u'' ''s'' 2 = [1]" by code_simp
  have p1: "generateChunkPath ''u'' ''s'' 1 = ''uploads/u/s/chunk_001''"
    and p1': "generateChunkPath ''u'' ''s'' (Suc 0) = ''uploads/u/s/chunk_001''" by code_simp+
  have s1: "signedUrl firstChunkOnly ''u'' ''s'' ?e 1 =
      Some ''https://signed.example/uploads/u/s/chunk_001''"
    by (simp add: signedUrl_def firstChunkOnly_def exampleSigner_def p1 p1')
  have s2: "signedUrl signingRejected ''u'' ''s'' ?e 1 = None"
    by (simp add: signedUrl_def signingRejected_def)
  have st: "[''s'' \<mapsto> exampleSession](''s'' \<mapsto> exampleSession\<lparr>sess_chunksCompleted := [0, 1],
       sess_chunksFailed := [], sess_completedChunks := [0, 1], sess_progress := 100\<rparr>)
     = [''s'' \<mapsto> staleSession]"
    by (simp add: staleSession_def)
  note T1 = resume_recomputes_from_store_checks
         [where db = "[''s'' \<mapsto> exampleSession]" and sid = "''s''" and sd = exampleSession
            and now = 5 and b = firstChunkOnly
            and cc = "[0, 1]" and cf = "[]" and cd = "[0, 1]" and pr = 100, OF h1 h2 h3,
          unfolded u n st m1]
  note T2 = resume_recomputes_from_store_checks
         [where db = "[''s'' \<mapsto> exampleSession]" and sid = "''s''" and sd = exampleSession
            and now = 5 and b = signingRejected
            and cc = "[0, 1]" and cf = "[]" and cd = "[0, 1]" and pr = 100, OF h1 h2 h3,
          unfolded u n st m2]
  from T1 s1 obtain r where
      r: "fst (resume_POST (Verified ''u'') ''s'' 5 firstChunkOnly [''s'' \<mapsto> exampleSession]) = Success r"
         "rd_existingChunks r = filter (reportedPresent firstChunkOnly ''u'' ''s'') [0..<2]"
         "rd_missingChunks r = filter (\<lambda>i. \<not> reportedPresent firstChunkOnly ''u'' ''s'' i) [0..<2]"
         "\<forall>i \<in> set (rd_missingChunks r). rd_chunkUrls r i = signedUrl firstChunkOnly ''u'' ''s'' ?e i"
         "card (dom (rd_chunkUrls r)) = 2 - length (rd_existingChunks r)"
         "fst (resume_POST (Verified ''u'') ''s'' 5 firstChunkOnly [''s'' \<mapsto> staleSession]) = Success r"
    by auto
  from r(2) have e: "rd_existingChunks r = [0]" by (simp only: ex)
  from r(3) have m: "rd_missingChunks r = [1]" by (simp only: mi)
  from r(4) m s1 have url: "rd_chunkUrls r 1 = Some ''https://signed.example/uploads/u/s/chunk_001''"
    by simp
  from r(5) e have c: "card (dom (rd_chunkUrls r)) = 1" by simp
  from T2 s2 have f:
    "resume_POST (Verified ''u'') ''s'' 5 signingRejected [''s'' \<mapsto> exampleSession] =
       (Failure 500 ''Internal server error'', [''s'' \<mapsto> exampleSession])"
    "fst (resume_POST (Verified ''u'') ''s'' 5 signingRejected [''s'' \<mapsto> staleSession]) =
       Failure 500 ''Internal server error''"
    by auto
  from f(1) have f1: "fst (resume_POST (Verified ''u'') ''s'' 5 signingRejected [''s'' \<mapsto> exampleSession]) =
     Failure 500 ''Internal server error''"
   and f2: "snd (resume_POST (Verified ''u'') ''s'' 5 signingRejected [''s'' \<mapsto> exampleSession]) ''s'' =
     Some exampleSession"
    by simp_all
  from h1 h2 h3 m1 s1 r(1) e m url c r(6) m2 s2 f1 f2 f(2) show ?thesis by blast
qed

text \<open>
  C6, as stated, fails: both chunk objects are in the store (\<open>k = n = 2\<close>), but the
  existence check of the second is rejected; the loop's catch counts it as missing and
  resume issues a URL for it, one URL instead of \<open>n - k = 0\<close>.
\<close>

theorem resume_signs_existing_chunk_when_check_rejected:
  "length (filter (actuallyPresent secondCheckRejected ''u'' ''s'') [0..<2]) = 2 \<and>
   fst (resume_POST (Verified ''u'') ''s'' 5 secondCheckRejected [''s'' \<mapsto> exampleSession]) =
     Success \<lparr> rd_uploadSessionId = ''s'', rd_totalChunks = 2, rd_existingChunks = [0],
               rd_missingChunks = [1],
               rd_chunkUrls = [1 \<mapsto> ''https://signed.example/uploads/u/s/chunk_001''],
               rd_progress = Some 50, rd_status = ''resuming'' \<rparr>"
proof -
  have a: "length (filter (actuallyPresent secondCheckRejected ''u'' ''s'') [0..<2]) = 2"
    by code_simp
  have p0: "generateChunkPath ''u'' ''s'' 0 = ''uploads/u/s/chunk_000''" by code_simp
  have p1: "generateChunkPath ''u'' ''s'' (Suc 0) = ''uploads/u/s/chunk_001''" by code_simp
  have "fst (resume_POST (Verified ''u'') ''s'' 5 secondCheckRejected [''s'' \<mapsto> exampleSession]) =
     Success \<lparr> rd_uploadSessionId = ''s'', rd_totalChunks = 2, rd_existingChunks = [0],
               rd_missingChunks = [1],
               rd_chunkUrls = [1 \<mapsto> ''https://signed.example/uploads/u/s/chunk_001''],
               rd_progress = Some 50, rd_status = ''resuming'' \<rparr>"
    by (simp add: resume_POST_def exampleSession_def secondCheckRejected_def exampleSigner_def
        file_exists_def p0 p1 numeral_2_eq_2 upt_rec Let_def SIGNED_URL_EXPIRY_HOURS_def
        resumeProgress_def js_round_def)
  with a show ?thesis by simp
qed

section \<open>Properties of segmentation\<close>

lemma segmentLoop_ok:
  assumes "\<forall>k. i \<le> k \<and> k < n \<longrightarrow> extraction env (k + 1) = None"
  shows "segmentLoop env v u D n i segs = Inr (segs @ map (segmentAt v u D) [i..<n])"
  using assms
proof (induction env v u D n i segs rule: segmentLoop.induct)
  case (1 env v u D n i segs)
  show ?case
  proof (cases "i < n")
    case False
    then show ?thesis by (simp add: segmentLoop.simps)
  next
    case True
    from 1(2) True have e: "extraction env (i + 1) = None" by auto
    have seg: "extractSegment env (real i * 5) (min (real (i + 1) * 5) D - real i * 5) (i + 1)
                   ''/tmp/video-processing/segments'' v u = Inr (segmentAt v u D i)"
      using e by (simp add: extractSegment_def segmentAt_def)
    from 1(2) have "\<forall>k. i + 1 \<le> k \<and> k < n \<longrightarrow> extraction env (k + 1) = None" by auto
    from 1(1) [OF True refl refl refl seg this]
    have "segmentLoop env v u D n (i + 1) (segs @ [segmentAt v u D i]) =
          Inr ((segs @ [segmentAt v u D i]) @ map (segmentAt v u D) [i + 1..<n])" .
    moreover from True have "[i..<n] = i # [i + 1..<n]" by (simp add: upt_rec)
    ultimately show ?thesis using True seg
      by (subst segmentLoop.simps) (simp add: Let_def)
  qed
qed

lemma segmentLoop_result:
  "segmentLoop env v u D n i segs = Inr out \<Longrightarrow> out = segs @ map (segmentAt v u D) [i..<n]"
proof (induction env v u D n i segs rule: segmentLoop.induct)
  case (1 env v u D n i segs)
  show ?case
  proof (cases "i < n")
    case False
    with 1(2) show ?thesis by (simp add: segmentLoop.simps)
  next
    case True
    from 1(2) True obtain seg where
      seg: "extractSegment env (real i * 5) (min (real (i + 1) * 5) D - real i * 5) (i + 1)
                   ''/tmp/video-processing/segments'' v u = Inr seg"
      and rest: "segmentLoop env v u D n (i + 1) (segs @ [seg]) = Inr out"
      by (subst (asm) segmentLoop.simps) (auto simp: Let_def split: sum.splits)
    from seg have s: "seg = segmentAt v u D i"
      by (auto simp: extractSegment_def segmentAt_def split: option.splits)
    from 1(1) [OF True refl refl refl seg rest]
    have "out = (segs @ [seg]) @ map (segmentAt v u D) [i + 1..<n]" .
    moreover from True have "[i..<n] = i # [i + 1..<n]" by (simp add: upt_rec)
    ultimately show ?thesis using s by simp
  qed
qed

lemma segmentVideo_result:
  assumes "segmentVideo env v u = Inr segments" and "probedDuration env = Inr D"
  shows "segments = map (segmentAt v u D) [0..<nat \<lceil>D / 5\<rceil>]"
proof -
  from assms have "segmentLoop env v u D (nat \<lceil>D / 5\<rceil>) 0 [] = Inr segments"
    by (simp add: segmentVideo_def Let_def split: sum.splits)
  from segmentLoop_result [OF this] show ?thesis by simp
qed

lemma segmentVideo_ok:
  assumes "probedDuration env = Inr D" and "\<forall>k < nat \<lceil>D / 5\<rceil>. extraction env (k + 1) = None"
  shows "segmentVideo env v u = Inr (map (segmentAt v u D) [0..<nat \<lceil>D / 5\<rceil>])"
proof -
  from assms(2) have "\<forall>k. 0 \<le> k \<and> k < nat \<lceil>D / 5\<rceil> \<longrightarrow> extraction env (k + 1) = None" by simp
  from segmentLoop_ok [OF this, of v u D "[]"] assms(1) show ?thesis
    by (simp add: segmentVideo_def Let_def)
qed

lemma ceil_bounds:
  assumes "k < nat \<lceil>D / 5\<rceil>"
  shows "real k * 5 < D" and "D \<le> real (nat \<lceil>D / 5\<rceil>) * 5"
proof -
  define c where "c = \<lceil>D / 5\<rceil>"
  have up: "D / 5 \<le> of_int c" unfolding c_def by (rule le_of_int_ceiling)
  have lo: "of_int c - 1 < D / 5" unfolding c_def using ceiling_correct [of "D / 5"] by linarith
  from assms have kc: "int k < c" unfolding c_def by linarith
  then have "0 \<le> c" by linarith
  then have n: "real (nat c) = of_int c" by (rule of_nat_nat)
  from kc have "int k + 1 \<le> c" by linarith
  then have "real_of_int (int k + 1) \<le> real_of_int c" by (simp only: of_int_le_iff)
  then have "real k + 1 \<le> of_int c" by simp
  with lo have "real k < D / 5" by linarith
  then show "real k * 5 < D" by linarith
  from up n show "D \<le> real (nat \<lceil>D / 5\<rceil>) * 5" unfolding c_def by linarith
qed

lemma segmentAt_inner:
  assumes "k + 1 < nat \<lceil>D / 5\<rceil>"
  shows "seg_duration (segmentAt v u D k) = 5"
    and "seg_endTime (segmentAt v u D k) = real (k + 1) * 5"
proof -
  from ceil_bounds(1) [OF assms] have "real (k + 1) * 5 < D" .
  then have m: "min (real (k + 1) * 5) D = real (k + 1) * 5" by linarith
  have d: "seg_duration (segmentAt v u D k) = min (real (k + 1) * 5) D - real k * 5"
    by (simp add: segmentAt_def segmentRecord_def)
  have e: "seg_endTime (segmentAt v u D k) = real k * 5 + (min (real (k + 1) * 5) D - real k * 5)"
    by (simp add: segmentAt_def segmentRecord_def)
  from d m show "seg_duration (segmentAt v u D k) = 5" by (simp add: algebra_simps)
  from e m show "seg_endTime (segmentAt v u D k) = real (k + 1) * 5" by (simp add: algebra_simps)
qed

lemma segmentAt_last:
  assumes "k + 1 = nat \<lceil>D / 5\<rceil>"
  shows "seg_duration (segmentAt v u D k) = D - 5 * (real_of_int \<lceil>D / 5\<rceil> - 1)"
    and "seg_endTime (segmentAt v u D k) = D"
proof -
  define c where "c = \<lceil>D / 5\<rceil>"
  from assms have k: "k < nat \<lceil>D / 5\<rceil>" by linarith
  from ceil_bounds(2) [OF k] assms have "D \<le> real (k + 1) * 5" by simp
  then have m: "min (real (k + 1) * 5) D = D" by linarith
  from assms have "k + 1 = nat c" by (simp add: c_def)
  then have "c = int (k + 1)" by linarith
  then have c: "real_of_int c = real k + 1" by simp
  have d: "seg_duration (segmentAt v u D k) = min (real (k + 1) * 5) D - real k * 5"
    by (simp add: segmentAt_def segmentRecord_def)
  have e: "seg_endTime (segmentAt v u D k) = real k * 5 + (min (real (k + 1) * 5) D - real k * 5)"
    by (simp add: segmentAt_def segmentRecord_def)
  from d m c have "seg_duration (segmentAt v u D k) = D - 5 * (real_of_int c - 1)"
    by (simp add: algebra_simps)
  then show "seg_duration (segmentAt v u D k) = D - 5 * (real_of_int \<lceil>D / 5\<rceil> - 1)"
    by (simp only: c_def)
  from e m show "seg_endTime (segmentAt v u D k) = D" by simp
qed

text \<open>
  C5. The segmenter's fixed segment length is the literal 5. For a file whose probed duration
  is \<open>D\<close>, and when no extraction fails, segmentation returns exactly \<open>\<lceil>D / 5\<rceil>\<close>
  segments; segment \<open>k\<close> (counting from 0) has number \<open>k + 1\<close>, starts at \<open>5 k\<close> and
  ends at its start plus its duration; every segment but the last lasts 5 seconds and ends
  where the next one starts; the last one lasts \<open>D - 5 (\<lceil>D / 5\<rceil> - 1)\<close> and ends at \<open>D\<close>.
\<close>

theorem segmentation_shape:
  assumes "probedDuration env = Inr D"
    and "\<forall>k < nat \<lceil>D / 5\<rceil>. extraction env (k + 1) = None"
  shows "\<exists>segments. segmentVideo env videoId userId = Inr segments \<and>
           length segments = nat \<lceil>D / 5\<rceil> \<and>
           (\<forall>k < length segments.
              seg_segmentNumber (segments ! k) = k + 1 \<and>
              seg_startTime (segments ! k) = 5 * real k \<and>
              seg_endTime (segments ! k) = seg_startTime (segments ! k) + seg_duration (segments ! k) \<and>
              (k + 1 < length segments \<longrightarrow>
                 seg_duration (segments ! k) = 5 \<and>
                 seg_startTime (segments ! (k + 1)) = seg_endTime (segments ! k)) \<and>
              (k + 1 = length segments \<longrightarrow>
                 seg_duration (segments ! k) = D - 5 * (real_of_int \<lceil>D / 5\<rceil> - 1) \<and>
                 seg_endTime (segments ! k) = D))"
proof -
  let ?n = "nat \<lceil>D / 5\<rceil>"
  let ?segs = "map (segmentAt videoId userId D) [0..<?n]"
  have r: "segmentVideo env videoId userId = Inr ?segs"
    using assms by (rule segmentVideo_ok)
  have len: "length ?segs = ?n" by simp
  have each: "seg_segmentNumber (?segs ! k) = k + 1 \<and>
              seg_startTime (?segs ! k) = 5 * real k \<and>
              seg_endTime (?segs ! k) = seg_startTime (?segs ! k) + seg_duration (?segs ! k) \<and>
              (k + 1 < length ?segs \<longrightarrow>
                 seg_duration (?segs ! k) = 5 \<and>
                 seg_startTime (?segs ! (k + 1)) = seg_endTime (?segs ! k)) \<and>
              (k + 1 = length ?segs \<longrightarrow>
                 seg_duration (?segs ! k) = D - 5 * (real_of_int \<lceil>D / 5\<rceil> - 1) \<and>
                 seg_endTime (?segs ! k) = D)" if k: "k < length ?segs" for k
  proof -
    from k have kn: "k < ?n" by simp
    then have at: "?segs ! k = segmentAt videoId userId D k" by simp
    have basic: "seg_segmentNumber (segmentAt videoId userId D k) = k + 1"
      "seg_startTime (segmentAt videoId userId D k) = 5 * real k"
      "seg_endTime (segmentAt videoId userId D k) =
         seg_startTime (segmentAt videoId userId D k) + seg_duration (segmentAt videoId userId D k)"
      by (simp_all add: segmentAt_def segmentRecord_def)
    have inner: "seg_duration (?segs ! k) = 5 \<and>
                 seg_startTime (?segs ! (k + 1)) = seg_endTime (?segs ! k)" if "k + 1 < length ?segs"
    proof -
      from that have k1: "k + 1 < ?n" by simp
      then have "?segs ! (k + 1) = segmentAt videoId userId D (k + 1)" by simp
      moreover have "seg_startTime (segmentAt videoId userId D (k + 1)) = real (k + 1) * 5"
        by (simp add: segmentAt_def segmentRecord_def)
      ultimately show ?thesis using segmentAt_inner [OF k1, of videoId userId] at by simp
    qed
    have final: "seg_duration (?segs ! k) = D - 5 * (real_of_int \<lceil>D / 5\<rceil> - 1) \<and>
                 seg_endTime (?segs ! k) = D" if "k + 1 = length ?segs"
    proof -
      from that have "k + 1 = ?n" by (simp only: len)
      from segmentAt_last [OF this, of videoId userId] at show ?thesis by (simp only:)
    qed
    from basic at have b': "seg_segmentNumber (?segs ! k) = k + 1 \<and>
              seg_startTime (?segs ! k) = 5 * real k \<and>
              seg_endTime (?segs ! k) = seg_startTime (?segs ! k) + seg_duration (?segs ! k)"
      by (simp only:)
    from b' inner final show ?thesis by blast
  qed
  from r len each show ?thesis by blast
qed

theorem segmentation_shape_witness:
  "probedDuration (allExtracted (47 / 2)) = Inr (47 / 2) \<and>
   (\<exists>segments. segmentVideo (allExtracted (47 / 2)) ''v'' ''u'' = Inr segments \<and>
      length segments = 5 \<and>
      seg_segmentNumber (segments ! 4) = 5 \<and> seg_startTime (segments ! 4) = 20 \<and>
      seg_duration (segments ! 4) = 7 / 2 \<and> seg_endTime (segments ! 4) = 47 / 2 \<and>
      seg_duration (segments ! 3) = 5 \<and>
      seg_startTime (segments ! 4) = seg_endTime (segments ! 3))"
proof -
  have h1: "probedDuration (allExtracted (47 / 2)) = Inr (47 / 2)"
    by (simp add: allExtracted_def)
  have h2: "\<forall>k < nat \<lceil>(47 / 2 :: real) / 5\<rceil>. extraction (allExtracted (47 / 2)) (k + 1) = None"
    by (simp add: allExtracted_def)
  have c: "\<lceil>(47 / 2 :: real) / 5\<rceil> = 5" by (simp add: ceiling_eq_iff)
  from segmentation_shape [OF h1 h2, of "''v''" "''u''"]
  obtain segments where s: "segmentVideo (allExtracted (47 / 2)) ''v'' ''u'' = Inr segments"
      "length segments = nat \<lceil>(47 / 2 :: real) / 5\<rceil>"
      "\<forall>k < length segments.
              seg_segmentNumber (segments ! k) = k + 1 \<and>
              seg_startTime (segments ! k) = 5 * real k \<and>
              seg_endTime (segments ! k) = seg_startTime (segments ! k) + seg_duration (segments ! k) \<and>
              (k + 1 < length segments \<longrightarrow>
                 seg_duration (segments ! k) = 5 \<and>
                 seg_startTime (segments ! (k + 1)) = seg_endTime (segments ! k)) \<and>
              (k + 1 = length segments \<longrightarrow>
                 seg_duration (segments ! k) = 47 / 2 - 5 * (real_of_int \<lceil>(47 / 2 :: real) / 5\<rceil> - 1) \<and>
                 seg_endTime (segments ! k) = 47 / 2)"
    by blast
  from s(2) c have len: "length segments = 5" by simp
  from s(3) [rule_format, of 4] len c have k4: "seg_segmentNumber (segments ! 4) = 5"
      "seg_startTime (segments ! 4) = 20" "seg_duration (segments ! 4) = 7 / 2"
      "seg_endTime (segments ! 4) = 47 / 2"
    by auto
  from s(3) [rule_format, of 3] len have k3: "seg_duration (segments ! 3) = 5"
      "seg_startTime (segments ! 4) = seg_endTime (segments ! 3)"
    by auto
  from h1 s(1) len k4 k3 show ?thesis by blast
qed

section \<open>Properties of the inference service calls\<close>








text \<open>
  The visual call on a response that is not retryable: the error thrown for a 400 is not a
  network error, and on the first two attempts it is not rethrown either, so the loop makes
  all three attempts, without waiting.
\<close>

lemma malformed_input_attempted_three_times:
  "\<not> retryable (alwaysMalformed 1) \<and>
   callVisualAnalysisService alwaysMalformed =
     (Inl ''Self-hosted visual analysis failed after 3 attempts: Error: AI service responded with status 400: Bad Request'',
      [Attempt 1, Attempt 2, Attempt 3])"
  by code_simp

section \<open>Properties of the analysis run\<close>

lemma analyzeSegment_cases:
  "(segmentSave env (seg_segmentNumber s) \<longrightarrow>
      (segmentSucceeds env s \<longleftrightarrow> (\<exists>a v. analyzeSegment env s = SuccessResult s a v)))
   \<and> (\<forall>a v s'. analyzeSegment env s = SuccessResult s' a v \<longrightarrow> s' = s)
   \<and> ((\<exists>e s'. analyzeSegment env s = FailureResult s' e) \<longrightarrow> \<not> segmentSucceeds env s)"
  by (auto simp: analyzeSegment_def segmentSucceeds_def split: sum.splits)

lemma recordResults_eq:
  "recordResults env (map (analyzeSegment env) chunk) (events, c) =
     (events @ map (\<lambda>segment. SegmentSaved (seg_segmentNumber segment))
                 (filter (segmentSucceeds env) chunk),
      c\<lparr> successfulSegments :=
            successfulSegments c + length (filter (segmentSucceeds env) chunk),
         failedSegments :=
            failedSegments c + length (filter (\<lambda>s. \<not> segmentSucceeds env s) chunk) \<rparr>)"
proof (induction chunk arbitrary: events c)
  case Nil
  then show ?case by simp
next
  case (Cons s chunk)
  show ?case
  proof (cases "analyzeSegment env s")
    case (FailureResult s' e)
    then have "\<not> segmentSucceeds env s" using analyzeSegment_cases [of env s] by blast
    with FailureResult Cons.IH show ?thesis by simp
  next
    case (SuccessResult s' a v)
    then have s': "s' = s" using analyzeSegment_cases [of env s] by blast
    show ?thesis
    proof (cases "segmentSave env (seg_segmentNumber s)")
      case True
      with SuccessResult s' have "segmentSucceeds env s"
        using analyzeSegment_cases [of env s] by blast
      with SuccessResult s' True Cons.IH show ?thesis by simp
    next
      case False
      then have "\<not> segmentSucceeds env s" by (simp add: segmentSucceeds_def)
      with SuccessResult s' False Cons.IH show ?thesis by simp
    qed
  qed
qed

lemma processChunks_eq:
  "processChunks env m i chunks (events, c) =
     (events @ batchesFrom env m i chunks, counted env (concat chunks) c)"
proof (induction chunks arbitrary: i events c)
  case Nil
  then show ?case by (simp add: counted_def)
next
  case (Cons chunk rest)
  show ?case
    by (simp add: Let_def recordResults_eq Cons.IH batchEvents_def counted_def)
qed

lemma concat_segmentChunksFrom:
  "concat (segmentChunksFrom segs i acc) = concat acc @ drop i segs"
proof (induction segs i acc rule: segmentChunksFrom.induct)
  case (1 segments i segmentChunks)
  show ?case
  proof (cases "i < length segments")
    case False
    then show ?thesis by (simp add: segmentChunksFrom.simps)
  next
    case True
    have "take PARALLEL_LIMIT (drop i segments) @ drop (i + PARALLEL_LIMIT) segments
            = drop i segments"
      by (metis add.commute append_take_drop_id drop_drop)
    with 1 [OF True] True show ?thesis
      by (subst segmentChunksFrom.simps) (simp add: slice_def)
  qed
qed


lemma storedSegments_append:
  "storedSegments (a @ b) = storedSegments a @ storedSegments b"
  by (induction a rule: storedSegments.induct) auto

lemma analyzedSegments_append:
  "analyzedSegments (a @ b) = analyzedSegments a @ analyzedSegments b"
  by (induction a rule: analyzedSegments.induct) auto

lemma documentAfter_append:
  "documentAfter (a @ b) d = documentAfter b (documentAfter a d)"
  by (induction a d rule: documentAfter.induct) auto


lemma progressValues_saved [simp]:
  "progressValues (map (\<lambda>segment. SegmentSaved (f segment)) xs) = []"
  by (induction xs) auto

lemma analyzedSegments_saved [simp]:
  "analyzedSegments (map (\<lambda>segment. SegmentSaved (f segment)) xs) = []"
  by (induction xs) auto

lemma storedSegments_saved [simp]:
  "storedSegments (map (\<lambda>segment. SegmentSaved (f segment)) xs) = []"
  by (induction xs) auto

lemma documentAfter_saved [simp]:
  "documentAfter (map (\<lambda>segment. SegmentSaved (f segment)) xs) d = d"
  by (induction xs) auto

lemma workAnnounced_saved [simp]:
  "workAnnounced prev (map (\<lambda>segment. SegmentSaved (f segment)) xs)"
  by (induction xs arbitrary: prev) auto


lemma analyzedSegments_batches:
  "analyzedSegments (batchesFrom env m i chunks) = map seg_segmentNumber (concat chunks)"
  by (induction chunks arbitrary: i)
     (simp_all add: batchEvents_def analyzedSegments_append)

lemma storedSegments_batches:
  "storedSegments (batchesFrom env m i chunks) = []"
  by (induction chunks arbitrary: i)
     (simp_all add: batchEvents_def storedSegments_append)


lemma batches_no_status:
  "Update u \<in> set (batchesFrom env m i chunks) \<Longrightarrow>
     up_status u = None \<and> up_analysisError u = None \<and> up_segmentCount u = None"
  by (induction chunks arbitrary: i)
     (auto simp: batchEvents_def batchUpdate_def noUpdate_def)

lemma documentAfter_batches:
  "vid_segmentCount (documentAfter (batchesFrom env m i chunks) d) = vid_segmentCount d"
  by (induction chunks arbitrary: i d)
     (simp_all add: batchEvents_def documentAfter_append batchUpdate_def noUpdate_def
        applyUpdate_def)




lemma prepare_Inr:
  assumes "prepare v u env = (events, Inr segments)"
  shows "\<exists>D. validate env = Inr D \<and> segmentVideo (segmenter env) v u = Inr segments \<and>
             events = preparedEvents D segments \<and> download env = None"
  using assms
  by (auto simp: prepare_def preparedEvents_def Let_def split: option.splits sum.splits)

lemma prepare_ok:
  assumes "download env = None" and "validate env = Inr D" and "standardizeVideo env = None"
    and "audioExtraction env = None" and "probedDuration (segmenter env) = Inr D'"
    and "\<forall>k < nat \<lceil>D' / 5\<rceil>. extraction (segmenter env) (k + 1) = None"
    and "verification env = None" and "batchCommit env = None" and "analyzers env = None"
  shows "prepare v u env =
           (preparedEvents D (map (segmentAt v u D') [0..<nat \<lceil>D' / 5\<rceil>]),
            Inr (map (segmentAt v u D') [0..<nat \<lceil>D' / 5\<rceil>]))"
  using assms segmentVideo_ok [OF assms(5,6), of v u]
  by (simp add: prepare_def preparedEvents_def Let_def)

lemma smooth_prepare:
  "prepare v u (smoothRun D bad) =
     (preparedEvents D (map (segmentAt v u D) [0..<nat \<lceil>D / 5\<rceil>]),
      Inr (map (segmentAt v u D) [0..<nat \<lceil>D / 5\<rceil>]))"
  by (rule prepare_ok)
     (simp_all add: smoothRun_def allExtracted_def standardizeVideo_def)

lemma reencoded_prepare:
  "prepare v u (reencodedRun D D') =
     (preparedEvents D (map (segmentAt v u D') [0..<nat \<lceil>D' / 5\<rceil>]),
      Inr (map (segmentAt v u D') [0..<nat \<lceil>D' / 5\<rceil>]))"
  by (rule prepare_ok)
     (simp_all add: reencodedRun_def smoothRun_def allExtracted_def standardizeVideo_def)


lemma run_success:
  assumes "prepare v u env = (events, Inr segments)"
  shows "processVideoInBackground v u env =
           events @
           batchesFrom (analysis env) (length (segmentChunksFrom segments 0 [])) 0
             (segmentChunksFrom segments 0 []) @
           [Update (finalUpdate (length segments) (counted (analysis env) segments noCounts)),
            Cleanup]"
proof -
  have "concat (segmentChunksFrom segments 0 []) = segments"
    by (simp add: concat_segmentChunksFrom)
  with assms show ?thesis
    by (simp add: processVideoInBackground_def Let_def processChunks_eq noCounts_def)
qed





lemma analyzed_run:
  assumes "prepare v u env = (events, Inr segments)"
  shows "analyzedSegments (processVideoInBackground v u env) = map seg_segmentNumber segments"
    and "storedSegments (processVideoInBackground v u env) = map seg_segmentNumber segments"
proof -
  from prepare_Inr [OF assms] obtain D where e: "events = preparedEvents D segments" by blast
  have c: "concat (segmentChunksFrom segments 0 []) = segments"
    by (simp add: concat_segmentChunksFrom)
  show "analyzedSegments (processVideoInBackground v u env) = map seg_segmentNumber segments"
    by (simp add: run_success [OF assms] analyzedSegments_append analyzedSegments_batches c e
        preparedEvents_def)
  show "storedSegments (processVideoInBackground v u env) = map seg_segmentNumber segments"
    by (simp add: run_success [OF assms] storedSegments_append storedSegments_batches e
        preparedEvents_def)
qed

lemma finalStatus_thresholds:
  assumes "0 < n"
  shows "finalStatus s n =
           (if 9 * n \<le> 10 * s then ''analysis_complete''
            else if n \<le> 2 * s then ''analysis_partial''
            else ''analysis_failed'')"
proof -
  from assms have n: "0 < real n" by simp
  have a: "(9 / 10 \<le> real s / real n) = (9 * n \<le> 10 * s)"
  proof -
    have "(9 / 10 \<le> real s / real n) = (9 / 10 * real n \<le> real s)"
      using n by (simp add: pos_le_divide_eq)
    also have "\<dots> = (real (9 * n) \<le> real (10 * s))" by auto
    also have "\<dots> = (9 * n \<le> 10 * s)" by (simp only: of_nat_le_iff)
    finally show ?thesis .
  qed
  have b: "(1 / 2 \<le> real s / real n) = (n \<le> 2 * s)"
  proof -
    have "(1 / 2 \<le> real s / real n) = (1 / 2 * real n \<le> real s)"
      using n by (simp add: pos_le_divide_eq)
    also have "\<dots> = (real n \<le> real (2 * s))" by auto
    also have "\<dots> = (n \<le> 2 * s)" by (simp only: of_nat_le_iff)
    finally show ?thesis .
  qed
  from assms a b show ?thesis by (simp add: finalStatus_def Let_def)
qed

lemma ceil_30_less_ceil_5:
  assumes "5 < (D'::real)" and "D \<le> D' + 20"
  shows "\<lceil>D / 30\<rceil> < int (nat \<lceil>D' / 5\<rceil>)"
proof -
  define a where "a = \<lceil>D / 30\<rceil>"
  define b where "b = \<lceil>D' / 5\<rceil>"
  have b1: "D' / 5 \<le> real_of_int b" unfolding b_def by (rule le_of_int_ceiling)
  from assms(1) have "1 < D' / 5" by simp
  then have b2: "1 < b" unfolding b_def by (simp add: less_ceiling_iff)
  then have b3: "2 \<le> real_of_int b" by simp
  from assms(2) b1 have "D / 30 \<le> (5 * real_of_int b + 20) / 30" by simp
  also from b3 have "\<dots> \<le> real_of_int b - 1" by simp
  finally have "D / 30 \<le> real_of_int (b - 1)" by simp
  then have "a \<le> b - 1" unfolding a_def by (simp only: ceiling_le_iff)
  with b2 have "a < int (nat b)" by linarith
  then show ?thesis by (simp only: a_def b_def)
qed

lemma segmentCount_after_run:
  assumes "prepare v u env = (events, Inr segments)" and "validate env = Inr D"
  shows "vid_segmentCount (documentAfter (processVideoInBackground v u env) d) =
           Some \<lceil>D / 30\<rceil>"
proof -
  from prepare_Inr [OF assms(1)] assms(2) have e: "events = preparedEvents D segments" by auto
  show ?thesis
    by (simp add: run_success [OF assms(1)] documentAfter_append documentAfter_batches e
        preparedEvents_def finalUpdate_def Let_def applyUpdate_def noUpdate_def stepUpdate_def
        progressOnly_def SEGMENT_DURATION_def)
qed

text \<open>
  C3. For a run over \<open>n > 0\<close> segments of which \<open>s\<close> are analyzed and written successfully, the
  status the video document ends with is \<open>analysis_complete\<close> when \<open>s / n \<ge> 0.9\<close>,
  \<open>analysis_partial\<close> when \<open>s / n \<ge> 0.5\<close> and \<open>analysis_failed\<close> otherwise; with 10 segments,
  9 successes give complete, 8, 6 and 5 partial, 4 failed. The rate is the exact quotient.
\<close>

theorem final_status_by_success_rate:
  assumes "prepare videoId userId env = (events, Inr segments)" and "segments \<noteq> []"
  shows "vid_status (documentAfter (processVideoInBackground videoId userId env) d) =
           finalStatus (length (filter (segmentSucceeds (analysis env)) segments)) (length segments) \<and>
         finalStatus (length (filter (segmentSucceeds (analysis env)) segments)) (length segments) =
           (if real (length (filter (segmentSucceeds (analysis env)) segments)) / real (length segments) \<ge> 9 / 10
            then ''analysis_complete''
            else if real (length (filter (segmentSucceeds (analysis env)) segments)) / real (length segments) \<ge> 1 / 2
            then ''analysis_partial''
            else ''analysis_failed'') \<and>
         finalStatus 9 10 = ''analysis_complete'' \<and> finalStatus 8 10 = ''analysis_partial'' \<and>
         finalStatus 6 10 = ''analysis_partial'' \<and> finalStatus 5 10 = ''analysis_partial'' \<and>
         finalStatus 4 10 = ''analysis_failed''"
proof (intro conjI)
  let ?s = "length (filter (segmentSucceeds (analysis env)) segments)"
  show "vid_status (documentAfter (processVideoInBackground videoId userId env) d) =
          finalStatus ?s (length segments)"
    by (simp add: run_success [OF assms(1)] documentAfter_append finalUpdate_def Let_def
        applyUpdate_def noUpdate_def counted_def noCounts_def)
  from assms(2) show "finalStatus ?s (length segments) =
           (if real ?s / real (length segments) \<ge> 9 / 10 then ''analysis_complete''
            else if real ?s / real (length segments) \<ge> 1 / 2 then ''analysis_partial''
            else ''analysis_failed'')"
    by (simp add: finalStatus_def Let_def)
qed (simp_all add: finalStatus_thresholds)

theorem final_status_by_success_rate_witness:
  "prepare ''v'' ''u'' (smoothRun 12 [2]) = (preparedEvents 12 threeSegments, Inr threeSegments) \<and>
   threeSegments \<noteq> [] \<and>
   vid_status (documentAfter (processVideoInBackground ''v'' ''u'' (smoothRun 12 [2])) uploadedVideo)
     = ''analysis_partial''"
proof -
  have c5: "nat \<lceil>(12::real) / 5\<rceil> = 3" by (simp add: ceiling_eq_iff)
  have p: "prepare ''v'' ''u'' (smoothRun 12 [2]) = (preparedEvents 12 threeSegments, Inr threeSegments)"
    using smooth_prepare [of "''v''" "''u''" 12 "[2]"] by (simp only: c5 threeSegments_def)
  have ne: "threeSegments \<noteq> []" by (simp add: threeSegments_def)
  have l: "length threeSegments = 3" by (simp add: threeSegments_def)
  have s: "length (filter (segmentSucceeds (analysis (smoothRun 12 [2]))) threeSegments) = 2"
    by code_simp
  have fs: "finalStatus 2 3 = ''analysis_partial''" by (simp add: finalStatus_thresholds)
  from final_status_by_success_rate [OF p ne, of uploadedVideo] p ne show ?thesis
    by (simp only: l s fs) simp
qed

text \<open>
  C4. Once steps 1 to 8 have produced the segments, the run consists of those steps' events,
  the batches, the final update and the cleanup, whatever the analysis calls do. The batches
  analyze every segment, in order; no write among them sets a status or an error; a segment
  whose audio or visual analysis fails is not successful; and the counters of the final
  update count all segments as completed, the unsuccessful ones as failed and the others as
  successful.
\<close>

theorem segment_failures_counted_not_propagated:
  assumes "prepare videoId userId env = (events, Inr segments)"
  shows "\<exists>batches c.
           processVideoInBackground videoId userId env =
             events @ batches @ [Update (finalUpdate (length segments) c), Cleanup] \<and>
           analyzedSegments batches = map seg_segmentNumber segments \<and>
           (\<forall>u. Update u \<in> set batches \<longrightarrow> up_status u = None \<and> up_analysisError u = None) \<and>
           completedSegments c = length segments \<and>
           failedSegments c =
             length (filter (\<lambda>s. \<not> segmentSucceeds (analysis env) s) segments) \<and>
           successfulSegments c = length (filter (segmentSucceeds (analysis env)) segments) \<and>
           (\<forall>s \<in> set segments.
              isl (analyzeAudioSegment (analysis env) s) \<or>
              isl (analyzeVideoSegment (analysis env) s) \<longrightarrow>
              \<not> segmentSucceeds (analysis env) s)"
proof -
  let ?chunks = "segmentChunksFrom segments 0 []"
  let ?batches = "batchesFrom (analysis env) (length ?chunks) 0 ?chunks"
  let ?c = "counted (analysis env) segments noCounts"
  have c: "concat ?chunks = segments" by (simp add: concat_segmentChunksFrom)
  have 1: "processVideoInBackground videoId userId env =
             events @ ?batches @ [Update (finalUpdate (length segments) ?c), Cleanup]"
    by (rule run_success [OF assms])
  have 2: "analyzedSegments ?batches = map seg_segmentNumber segments"
    by (simp add: analyzedSegments_batches c)
  have 3: "\<forall>u. Update u \<in> set ?batches \<longrightarrow> up_status u = None \<and> up_analysisError u = None"
    using batches_no_status by blast
  have 4: "completedSegments ?c = length segments"
    "failedSegments ?c = length (filter (\<lambda>s. \<not> segmentSucceeds (analysis env) s) segments)"
    "successfulSegments ?c = length (filter (segmentSucceeds (analysis env)) segments)"
    by (simp_all add: counted_def noCounts_def)
  have 5: "\<forall>s \<in> set segments.
              isl (analyzeAudioSegment (analysis env) s) \<or>
              isl (analyzeVideoSegment (analysis env) s) \<longrightarrow>
              \<not> segmentSucceeds (analysis env) s"
    by (auto simp: segmentSucceeds_def)
  from 1 2 3 4 5 show ?thesis by blast
qed

theorem segment_failures_counted_not_propagated_witness:
  "prepare ''v'' ''u'' (smoothRun 12 [2]) = (preparedEvents 12 threeSegments, Inr threeSegments) \<and>
   isl (analyzeVideoSegment (analysis (smoothRun 12 [2])) (threeSegments ! 1)) \<and>
   (\<exists>batches c.
      processVideoInBackground ''v'' ''u'' (smoothRun 12 [2]) =
        preparedEvents 12 threeSegments @ batches @ [Update (finalUpdate 3 c), Cleanup] \<and>
      analyzedSegments batches = [1, 2, 3] \<and>
      completedSegments c = 3 \<and> failedSegments c = 1 \<and> successfulSegments c = 2)"
proof -
  have c5: "nat \<lceil>(12::real) / 5\<rceil> = 3" by (simp add: ceiling_eq_iff)
  have p: "prepare ''v'' ''u'' (smoothRun 12 [2]) = (preparedEvents 12 threeSegments, Inr threeSegments)"
    using smooth_prepare [of "''v''" "''u''" 12 "[2]"] by (simp only: c5 threeSegments_def)
  have l: "length threeSegments = 3" by (simp add: threeSegments_def)
  have n: "map seg_segmentNumber threeSegments = [1, 2, 3]" by code_simp
  have f: "length (filter (\<lambda>s. \<not> segmentSucceeds (analysis (smoothRun 12 [2])) s) threeSegments) = 1"
    by code_simp
  have s: "length (filter (segmentSucceeds (analysis (smoothRun 12 [2]))) threeSegments) = 2"
    by code_simp
  have i: "isl (analyzeVideoSegment (analysis (smoothRun 12 [2])) (threeSegments ! 1))"
    by code_simp
  from segment_failures_counted_not_propagated [OF p] p i show ?thesis
    by (simp only: l n f s) blast
qed




text \<open>
  C10, as the code has it. Validation probes the downloaded file, \<open>D\<close> seconds, and the
  segmenter probes the standardized copy, \<open>D'\<close> seconds. When steps 1 to 8 succeed, the
  video document ends the run with \<open>segmentCount = \<lceil>D / 30\<rceil>\<close>, while \<open>\<lceil>D' / 5\<rceil>\<close>
  segments are created, stored as placeholder documents and analyzed. The persisted count is
  the number of segment documents exactly when the two agree; it is smaller whenever the copy
  lasts more than 5 seconds and the original at most 20 seconds more than the copy, as when
  both last the same \<open>D > 5\<close>.
\<close>

theorem persisted_segment_count_is_not_number_of_segments:
  assumes "prepare videoId userId env = (events, Inr segments)"
    and "validate env = Inr D" and "probedDuration (segmenter env) = Inr D'"
  shows "vid_segmentCount (documentAfter (processVideoInBackground videoId userId env) d) =
           Some \<lceil>D / 30\<rceil> \<and>
         length segments = nat \<lceil>D' / 5\<rceil> \<and>
         length (storedSegments (processVideoInBackground videoId userId env)) = nat \<lceil>D' / 5\<rceil> \<and>
         length (analyzedSegments (processVideoInBackground videoId userId env)) = nat \<lceil>D' / 5\<rceil> \<and>
         ((vid_segmentCount (documentAfter (processVideoInBackground videoId userId env) d) =
             Some (int (length (storedSegments (processVideoInBackground videoId userId env))))) =
          (\<lceil>D / 30\<rceil> = int (nat \<lceil>D' / 5\<rceil>))) \<and>
         (5 < D' \<and> D \<le> D' + 20 \<longrightarrow>
            \<lceil>D / 30\<rceil> < int (nat \<lceil>D' / 5\<rceil>) \<and>
            vid_segmentCount (documentAfter (processVideoInBackground videoId userId env) d) \<noteq>
              Some (int (length (storedSegments (processVideoInBackground videoId userId env)))))"
proof -
  from prepare_Inr [OF assms(1)]
  have sv: "segmentVideo (segmenter env) videoId userId = Inr segments" by blast
  from segmentVideo_result [OF sv assms(3)]
  have len: "length segments = nat \<lceil>D' / 5\<rceil>" by simp
  note sc = segmentCount_after_run [OF assms(1,2), of d]
  note an = analyzed_run [OF assms(1)]
  have st: "length (storedSegments (processVideoInBackground videoId userId env)) = nat \<lceil>D' / 5\<rceil>"
    and az: "length (analyzedSegments (processVideoInBackground videoId userId env)) = nat \<lceil>D' / 5\<rceil>"
    using an len by simp_all
  have eq: "(vid_segmentCount (documentAfter (processVideoInBackground videoId userId env) d) =
             Some (int (length (storedSegments (processVideoInBackground videoId userId env))))) =
          (\<lceil>D / 30\<rceil> = int (nat \<lceil>D' / 5\<rceil>))"
    by (simp only: sc st option.inject)
  have lt: "5 < D' \<and> D \<le> D' + 20 \<longrightarrow>
            \<lceil>D / 30\<rceil> < int (nat \<lceil>D' / 5\<rceil>) \<and>
            vid_segmentCount (documentAfter (processVideoInBackground videoId userId env) d) \<noteq>
              Some (int (length (storedSegments (processVideoInBackground videoId userId env))))"
  proof
    assume "5 < D' \<and> D \<le> D' + 20"
    then have l: "\<lceil>D / 30\<rceil> < int (nat \<lceil>D' / 5\<rceil>)"
      using ceil_30_less_ceil_5 [of D' D] by blast
    then have "\<lceil>D / 30\<rceil> \<noteq> int (nat \<lceil>D' / 5\<rceil>)" by (rule less_imp_neq)
    with eq l show "\<lceil>D / 30\<rceil> < int (nat \<lceil>D' / 5\<rceil>) \<and>
            vid_segmentCount (documentAfter (processVideoInBackground videoId userId env) d) \<noteq>
              Some (int (length (storedSegments (processVideoInBackground videoId userId env))))"
      by blast
  qed
  from sc len st az eq lt show ?thesis by blast
qed

theorem persisted_segment_count_is_not_number_of_segments_witness:
  "prepare ''v'' ''u'' (reencodedRun 47 (469 / 10)) =
     (preparedEvents 47 (map (segmentAt ''v'' ''u'' (469 / 10)) [0..<10]),
      Inr (map (segmentAt ''v'' ''u'' (469 / 10)) [0..<10])) \<and>
   validate (reencodedRun 47 (469 / 10)) = Inr 47 \<and>
   probedDuration (segmenter (reencodedRun 47 (469 / 10))) = Inr (469 / 10) \<and>
   (5::real) < 469 / 10 \<and> (47::real) \<le> 469 / 10 + 20 \<and>
   vid_segmentCount (documentAfter (processVideoInBackground ''v'' ''u'' (reencodedRun 47 (469 / 10)))
                       uploadedVideo) = Some 2 \<and>
   length (storedSegments (processVideoInBackground ''v'' ''u'' (reencodedRun 47 (469 / 10)))) = 10 \<and>
   length (analyzedSegments (processVideoInBackground ''v'' ''u'' (reencodedRun 47 (469 / 10)))) = 10"
proof -
  have c5: "nat \<lceil>(469 / 10 :: real) / 5\<rceil> = 10" by (simp add: ceiling_eq_iff)
  have c30: "\<lceil>(47::real) / 30\<rceil> = 2" by (simp add: ceiling_eq_iff)
  have p: "prepare ''v'' ''u'' (reencodedRun 47 (469 / 10)) =
     (preparedEvents 47 (map (segmentAt ''v'' ''u'' (469 / 10)) [0..<10]),
      Inr (map (segmentAt ''v'' ''u'' (469 / 10)) [0..<10]))"
    using reencoded_prepare [of "''v''" "''u''" 47 "469 / 10"] by (simp only: c5)
  have v: "validate (reencodedRun 47 (469 / 10)) = Inr 47"
    and q: "probedDuration (segmenter (reencodedRun 47 (469 / 10))) = Inr (469 / 10)"
    by (simp_all add: reencodedRun_def smoothRun_def allExtracted_def)
  have d: "(5::real) < 469 / 10" "(47::real) \<le> 469 / 10 + 20" by simp_all
  from persisted_segment_count_is_not_number_of_segments [OF p v q, of uploadedVideo]
  show ?thesis using p v q d by (simp add: c5 c30)
qed

text \<open>
  C10, as stated, fails: the downloaded file lasts 5.01 seconds, so \<open>D > 5\<close> and
  \<open>\<lceil>D / 30\<rceil> = 1 \<noteq> 2 = \<lceil>D / 5\<rceil>\<close>, but its standardized copy lasts 4.99 seconds; the
  segmenter probes the copy and creates one segment, not two, and the persisted count 1 is
  the number of segment documents.
\<close>

theorem persisted_count_equals_number_of_segments_when_copy_is_shorter:
  "validate (reencodedRun (501 / 100) (499 / 100)) = Inr (501 / 100) \<and>
   probedDuration (segmenter (reencodedRun (501 / 100) (499 / 100))) = Inr (499 / 100) \<and>
   (5::real) < 501 / 100 \<and>
   \<lceil>(501 / 100 :: real) / 30\<rceil> = 1 \<and> \<lceil>(501 / 100 :: real) / 5\<rceil> = 2 \<and>
   vid_segmentCount
     (documentAfter (processVideoInBackground ''v'' ''u'' (reencodedRun (501 / 100) (499 / 100)))
        uploadedVideo) = Some 1 \<and>
   storedSegments (processVideoInBackground ''v'' ''u'' (reencodedRun (501 / 100) (499 / 100))) = [1] \<and>
   analyzedSegments (processVideoInBackground ''v'' ''u'' (reencodedRun (501 / 100) (499 / 100))) = [1]"
proof -
  have c5: "nat \<lceil>(499 / 100 :: real) / 5\<rceil> = 1" by (simp add: ceiling_eq_iff)
  have c5': "\<lceil>(501 / 100 :: real) / 5\<rceil> = 2" by (simp add: ceiling_eq_iff)
  have c30: "\<lceil>(501 / 100 :: real) / 30\<rceil> = 1" by (simp add: ceiling_eq_iff)
  have p: "prepare ''v'' ''u'' (reencodedRun (501 / 100) (499 / 100)) =
     (preparedEvents (501 / 100) (map (segmentAt ''v'' ''u'' (499 / 100)) [0..<1]),
      Inr (map (segmentAt ''v'' ''u'' (499 / 100)) [0..<1]))"
    using reencoded_prepare [of "''v''" "''u''" "501 / 100" "499 / 100"] by (simp only: c5)
  have v: "validate (reencodedRun (501 / 100) (499 / 100)) = Inr (501 / 100)"
    and q: "probedDuration (segmenter (reencodedRun (501 / 100) (499 / 100))) = Inr (499 / 100)"
    by (simp_all add: reencodedRun_def smoothRun_def allExtracted_def)
  have n: "map seg_segmentNumber (map (segmentAt ''v'' ''u'' (499 / 100)) [0..<1]) = [1]"
    by (simp add: segmentAt_def segmentRecord_def)
  note sc = segmentCount_after_run [OF p v, of uploadedVideo, unfolded c30]
  note an = analyzed_run [OF p, unfolded n]
  have five: "(5::real) < 501 / 100" by simp
  from v q five c30 c5' sc an show ?thesis by blast
qed

end
